theory Spec2Isabelle
  imports Main
begin

section \<open>Go strings: the library functions the parsers call\<close>

text \<open>
  A Go string is a sequence of bytes; \<open>string\<close> (a list of 8-bit \<open>char\<close>) is the same
  thing. The Chinese labels of the source are written as their UTF-8 bytes.
  \<open>strings.HasPrefix\<close>, \<open>strings.Contains\<close>, \<open>strings.Split\<close> and \<open>strings.SplitN\<close>
  compare bytes; \<open>strings.TrimSpace\<close> decodes UTF-8 and removes the leading and
  trailing runes that \<open>unicode.IsSpace\<close> accepts.
\<close>

fun HasPrefix :: "string \<Rightarrow> string \<Rightarrow> bool" where
  "HasPrefix s [] = True"
| "HasPrefix [] (p # ps) = False"
| "HasPrefix (c # cs) (p # ps) = (c = p \<and> HasPrefix cs ps)"

fun Contains :: "string \<Rightarrow> string \<Rightarrow> bool" where
  "Contains [] substr = HasPrefix [] substr"
| "Contains (c # cs) substr = (HasPrefix (c # cs) substr \<or> Contains cs substr)"

text \<open>\<open>strings.Split(s, "\n")\<close>: the pieces between the newlines, never an empty list.\<close>

fun Split :: "string \<Rightarrow> string list" where
  "Split [] = [[]]"
| "Split (c # cs) =
     (if c = CHR 0x0A then [] # Split cs
      else (case Split cs of [] \<Rightarrow> [[c]] | l # ls \<Rightarrow> (c # l) # ls))"

text \<open>\<open>strings.SplitN(s, ":", 2)\<close>: one piece when there is no colon, otherwise the text
  before the first colon and everything after it.\<close>

definition SplitN :: "string \<Rightarrow> string list" where
  "SplitN s =
     (if CHR '':'' \<in> set s
      then [takeWhile (\<lambda>c. c \<noteq> CHR '':'') s, drop 1 (dropWhile (\<lambda>c. c \<noteq> CHR '':'') s)]
      else [s])"

type_synonym rune = nat

definition RuneError :: rune where
  "RuneError = 0xFFFD"

text \<open>\<open>unicode.IsSpace\<close>: the Latin-1 cases written out, then the White_Space table.\<close>

definition IsSpace :: "rune \<Rightarrow> bool" where
  "IsSpace r =
     (if r \<le> 0xFF then r = 0x09 \<or> r = 0x0A \<or> r = 0x0B \<or> r = 0x0C \<or> r = 0x0D \<or> r = 0x20
                          \<or> r = 0x85 \<or> r = 0xA0
      else r = 0x1680 \<or> (0x2000 \<le> r \<and> r \<le> 0x200A) \<or> r = 0x2028 \<or> r = 0x2029
           \<or> r = 0x202F \<or> r = 0x205F \<or> r = 0x3000)"

text \<open>\<open>utf8.DecodeRuneInString\<close>: the first rune and its width in bytes; an invalid or
  truncated encoding is \<open>RuneError\<close> of width 1, the empty string \<open>RuneError\<close> of width 0.\<close>

definition DecodeRuneInString :: "string \<Rightarrow> rune \<times> nat" where
  "DecodeRuneInString s =
     (case s of
        [] \<Rightarrow> (RuneError, 0)
      | c0 # _ \<Rightarrow>
          (let s0 = (of_char c0 :: nat) in
           if s0 < 0x80 then (s0, 1)
           else if s0 < 0xC2 \<or> 0xF4 < s0 then (RuneError, 1)
           else
             (let sz = (if s0 < 0xE0 then 2 else if s0 < 0xF0 then 3 else 4 :: nat);
                  lo = (if s0 = 0xE0 then 0xA0 else if s0 = 0xF0 then 0x90 else 0x80 :: nat);
                  hi = (if s0 = 0xED then 0x9F else if s0 = 0xF4 then 0x8F else 0xBF :: nat)
              in if length s < sz then (RuneError, 1)
                 else
                   (let s1 = (of_char (s ! 1) :: nat) in
                    if s1 < lo \<or> hi < s1 then (RuneError, 1)
                    else if sz \<le> 2 then ((s0 mod 32) * 64 + s1 mod 64, 2)
                    else
                      (let s2 = (of_char (s ! 2) :: nat) in
                       if s2 < 0x80 \<or> 0xBF < s2 then (RuneError, 1)
                       else if sz \<le> 3
                         then ((s0 mod 16) * 4096 + (s1 mod 64) * 64 + s2 mod 64, 3)
                       else
                         (let s3 = (of_char (s ! 3) :: nat) in
                          if s3 < 0x80 \<or> 0xBF < s3 then (RuneError, 1)
                          else ((s0 mod 8) * 262144 + (s1 mod 64) * 4096
                                  + (s2 mod 64) * 64 + s3 mod 64, 4)))))))"

text \<open>\<open>utf8.RuneStart\<close> and the backwards search of \<open>utf8.DecodeLastRuneInString\<close>: from
  the byte before the last, at most \<open>UTFMax - 1\<close> bytes back, to the nearest byte that can
  start a rune; when there is none the search ends one below the limit \<open>lim\<close>, or at 0.
  A lone non-ASCII byte is \<open>RuneError\<close> of width 1.\<close>

definition RuneStart :: "char \<Rightarrow> bool" where
  "RuneStart b = ((of_char b :: nat) < 0x80 \<or> 0xC0 \<le> (of_char b :: nat))"

fun lastRuneStart :: "string \<Rightarrow> nat \<Rightarrow> nat \<Rightarrow> nat" where
  "lastRuneStart s lim 0 = 0"
| "lastRuneStart s lim (Suc k) =
     (if Suc k < lim then Suc k
      else if RuneStart (s ! Suc k) then Suc k
      else lastRuneStart s lim k)"

definition DecodeLastRuneInString :: "string \<Rightarrow> rune \<times> nat" where
  "DecodeLastRuneInString s =
     (let end = length s in
      if end = 0 then (RuneError, 0)
      else if (of_char (s ! (end - 1)) :: nat) < 0x80 then (of_char (s ! (end - 1)), 1)
      else if end = 1 then (RuneError, 1)
      else
        (let start = lastRuneStart s (end - 4) (end - 2);
             (r, size) = DecodeRuneInString (drop start s)
         in if start + size \<noteq> end then (RuneError, 1) else (r, size)))"

text \<open>\<open>strings.TrimLeftFunc(s, unicode.IsSpace)\<close>: drop runes from the front while they
  are spaces.\<close>

function TrimLeftFunc :: "string \<Rightarrow> string" where
  "TrimLeftFunc s =
     (if s = [] then []
      else (let (r, wid) = DecodeRuneInString s
            in if IsSpace r then TrimLeftFunc (drop wid s) else s))"
  by pat_completeness auto
termination
proof (relation "measure length")
  show "wf (measure length)" by simp
next
  fix s :: string and x r wid
  assume "s \<noteq> []" and "x = DecodeRuneInString s" and "(r, wid) = x"
  moreover from \<open>s \<noteq> []\<close> have "0 < snd (DecodeRuneInString s)"
    by (cases s) (simp_all add: DecodeRuneInString_def Let_def)
  ultimately show "(drop wid s, s) \<in> measure length"
    by (cases "DecodeRuneInString s") auto
qed

text \<open>\<open>lastIndexFunc(s, unicode.IsSpace, false)\<close>: the byte index of the last rune that is
  not a space, \<open>None\<close> for Go's -1.\<close>

function lastIndexFunc :: "string \<Rightarrow> nat option" where
  "lastIndexFunc s =
     (if s = [] then None
      else (let (r, size) = DecodeLastRuneInString s; i = length s - size
            in if \<not> IsSpace r then Some i else lastIndexFunc (take i s)))"
  by pat_completeness auto
termination
proof (relation "measure length")
  show "wf (measure length)" by simp
next
  fix s :: string and x r size' i
  assume ne: "s \<noteq> []" and "x = DecodeLastRuneInString s" and "(r, size') = x"
    and "i = length s - size'"
  have le: "lastRuneStart s lim k \<le> k" for lim k
    by (induction k) auto
  have "lastRuneStart s (length s - 4) (length s - 2) + n = length s \<Longrightarrow> 0 < n" for n
    using le [of "length s - 4" "length s - 2"] ne by (cases s) auto
  then have "0 < snd (DecodeLastRuneInString s)"
    using ne unfolding DecodeLastRuneInString_def Let_def by (simp split: prod.splits)
  then show "(take i s, s) \<in> measure length"
    using ne \<open>x = DecodeLastRuneInString s\<close> \<open>(r, size') = x\<close> \<open>i = length s - size'\<close>
    by (cases "DecodeLastRuneInString s") auto
qed

declare TrimLeftFunc.simps [simp del] lastIndexFunc.simps [simp del]

text \<open>\<open>strings.TrimRightFunc(s, unicode.IsSpace)\<close> keeps the text up to the end of that
  rune; \<open>strings.TrimSpace\<close> trims both ends (its ASCII fast path computes the same
  result).\<close>

definition TrimRightFunc :: "string \<Rightarrow> string" where
  "TrimRightFunc s =
     (case lastIndexFunc s of
        None \<Rightarrow> []
      | Some i \<Rightarrow>
          if 0x80 \<le> (of_char (s ! i) :: nat)
          then take (i + snd (DecodeRuneInString (drop i s))) s
          else take (i + 1) s)"

definition TrimSpace :: "string \<Rightarrow> string" where
  "TrimSpace s = TrimRightFunc (TrimLeftFunc s)"

section \<open>The external utility\<close>

text \<open>
  Every component runs \<open>netsh\<close> and reads what it printed. The utility is the
  environment: a function from the time limit (\<open>None\<close> for \<open>exec.Command\<close>, which has
  none; \<open>Some d\<close> for \<open>exec.CommandContext\<close> under \<open>context.WithTimeout d\<close>) and the
  argument list to what \<open>cmd.Run()\<close> left behind. Writes to the log change no returned
  value and no branch, and are left out.
\<close>

type_synonym duration = int  \<comment> \<open>\<open>time.Duration\<close>, in nanoseconds\<close>

definition Second :: duration where
  "Second = 1000000000"

text \<open>An argument is a finished string, or \<open>ArgQ k v\<close> for \<open>fmt.Sprintf(k + "%q", v)\<close>,
  whose quoting is left to \<open>fmt\<close>.\<close>

datatype arg = Arg string | ArgQ string string

text \<open>The non-nil error of \<open>cmd.Run()\<close>: its text (\<open>err.Error()\<close>) and, when it is an
  \<open>*exec.ExitError\<close>, the exit code.\<close>

record run_error =
  Error :: string
  ExitCode :: "int option"

record exec_result =
  outBuf :: string
  errBuf :: string
  runErr :: "run_error option"
  deadlineExceeded :: bool  \<comment> \<open>\<open>ctx.Err() == context.DeadlineExceeded\<close> after \<open>Run\<close>\<close>

type_synonym netsh = "duration option \<Rightarrow> arg list \<Rightarrow> exec_result"

text \<open>The diagnostic text put into a status-query error: the captured stderr, or the
  hint that names the exit status when stderr is empty.\<close>

datatype errmsg = Stderr string | ExitStatusHint int

datatype error =
    LoggerNotInitialized string
  | InterfaceNotDetected
  | RunFailed string run_error errmsg
  | CommandTimeout "arg list" duration
  | CommandFailed "arg list" run_error string
  | Wrapped string error
  | StatusQueryFailed error errmsg

section \<open>The labels\<close>

definition keywordInterfaceName :: string where
  "keywordInterfaceName = [CHR 0xE5, CHR 0x90, CHR 0x8D, CHR 0xE7, CHR 0xA7, CHR 0xB0]"

definition keywordSSID :: string where
  "keywordSSID = ''SSID''"

definition keywordState :: string where
  "keywordState = [CHR 0xE7, CHR 0x8A, CHR 0xB6, CHR 0xE6, CHR 0x80, CHR 0x81]"

definition keywordConnectedState :: string where
  "keywordConnectedState =
     [CHR 0xE5, CHR 0xB7, CHR 0xB2, CHR 0xE8, CHR 0xBF, CHR 0x9E, CHR 0xE6, CHR 0x8E, CHR 0xA5]"

definition noNetworksVisible_zh :: string where
  "noNetworksVisible_zh =
     [CHR 0xE6, CHR 0xB2, CHR 0xA1, CHR 0xE6, CHR 0x9C, CHR 0x89, CHR 0xE6, CHR 0x97, CHR 0xA0,
      CHR 0xE7, CHR 0xBA, CHR 0xBF, CHR 0xE7, CHR 0xBD, CHR 0x91, CHR 0xE7, CHR 0xBB, CHR 0x9C,
      CHR 0xE5, CHR 0x8F, CHR 0xAF, CHR 0xE8, CHR 0xA7, CHR 0x81]"

definition noNetworksVisible_en :: string where
  "noNetworksVisible_en = ''No wireless networks are currently visible''"

definition showInterfaces :: "arg list" where
  "showInterfaces = [Arg ''wlan'', Arg ''show'', Arg ''interfaces'']"

section \<open>main.go\<close>

text \<open>The configuration constants of \<open>main.go\<close>.\<close>

definition targetSSID :: string where
  "targetSSID = ''qaz_5G''"

definition wifiInterfaceName :: string where
  "wifiInterfaceName = ''WLAN''"

definition checkInterval :: duration where
  "checkInterval = 15 * Second"

subsection \<open>getWlanInterface\<close>

text \<open>The loop keeps \<open>detectedInterfaceName\<close> and breaks on the first non-empty value. The
  first parameter of every function of this file says whether the global \<open>logger\<close> is set.\<close>

fun getWlanInterface_loop :: "string \<Rightarrow> string list \<Rightarrow> string" where
  "getWlanInterface_loop detectedInterfaceName [] = detectedInterfaceName"
| "getWlanInterface_loop detectedInterfaceName (line # lines) =
     (let trimmedLine = TrimSpace line in
      if HasPrefix trimmedLine keywordInterfaceName \<or> HasPrefix trimmedLine ''Name'' then
        (case SplitN trimmedLine of
           [p0, p1] \<Rightarrow>
             (let detected = TrimSpace p1 in
              if detected \<noteq> [] then detected else getWlanInterface_loop detected lines)
         | _ \<Rightarrow> getWlanInterface_loop detectedInterfaceName lines)
      else getWlanInterface_loop detectedInterfaceName lines)"

definition getWlanInterface :: "bool \<Rightarrow> netsh \<Rightarrow> error + string" where
  "getWlanInterface logger w =
     (if \<not> logger then Inl (LoggerNotInitialized ''getWlanInterface'')
      else
        (let r = w None showInterfaces in
         case runErr r of
           Some err \<Rightarrow> Inl (RunFailed ''getWlanInterface'' err (Stderr (errBuf r)))
         | None \<Rightarrow>
             (let detectedInterfaceName = getWlanInterface_loop [] (Split (outBuf r)) in
              if detectedInterfaceName = [] then Inl InterfaceNotDetected
              else Inr detectedInterfaceName)))"

subsection \<open>isConnected\<close>

text \<open>The three variables of the parsing loop, and what one iteration does with them:
  go on with new values, or return.\<close>

record pstate =
  inTargetInterfaceBlock :: bool
  blockParsedSSID :: string
  blockParsedState :: string

datatype step = Continue pstate | Return bool pstate

definition isConnected_line :: "string \<Rightarrow> string \<Rightarrow> pstate \<Rightarrow> string \<Rightarrow> step" where
  "isConnected_line targetSSID_param ifaceName_param st line =
     (let trimmedLine = TrimSpace line in
      if HasPrefix trimmedLine keywordInterfaceName then
        (case SplitN trimmedLine of
           [p0, p1] \<Rightarrow>
             if TrimSpace p1 = ifaceName_param
             then Continue \<lparr>inTargetInterfaceBlock = True, blockParsedSSID = [],
                            blockParsedState = []\<rparr>
             else Continue (st\<lparr>inTargetInterfaceBlock := False\<rparr>)
         | _ \<Rightarrow> Continue st)
      else if inTargetInterfaceBlock st then
        (let st1 =
               (if HasPrefix trimmedLine ''SSID'' \<and> \<not> Contains trimmedLine ''AP BSSID''
                then (case SplitN trimmedLine of
                        [p0, p1] \<Rightarrow> st\<lparr>blockParsedSSID := TrimSpace p1\<rparr>
                      | _ \<Rightarrow> st)
                else st);
             st2 =
               (if HasPrefix trimmedLine keywordState
                then (case SplitN trimmedLine of
                        [p0, p1] \<Rightarrow> st1\<lparr>blockParsedState := TrimSpace p1\<rparr>
                      | _ \<Rightarrow> st1)
                else st1)
         in if blockParsedSSID st2 = targetSSID_param
                \<and> blockParsedState st2 = keywordConnectedState
            then Return True st2
            else if blockParsedSSID st2 = targetSSID_param \<and> blockParsedState st2 \<noteq> []
                    \<and> blockParsedState st2 \<noteq> keywordConnectedState
            then Return False st2
            else Continue st2)
      else Continue st)"

text \<open>The loop over the lines; running off the end is the final \<open>return false, nil\<close>. The
  variables are returned with the answer, as they stand when the function returns.\<close>

fun isConnected_loop :: "string \<Rightarrow> string \<Rightarrow> pstate \<Rightarrow> string list \<Rightarrow> bool \<times> pstate" where
  "isConnected_loop targetSSID_param ifaceName_param st [] = (False, st)"
| "isConnected_loop targetSSID_param ifaceName_param st (line # lines) =
     (case isConnected_line targetSSID_param ifaceName_param st line of
        Return b st' \<Rightarrow> (b, st')
      | Continue st' \<Rightarrow> isConnected_loop targetSSID_param ifaceName_param st' lines)"

definition pstate0 :: pstate where
  "pstate0 = \<lparr>inTargetInterfaceBlock = False, blockParsedSSID = [], blockParsedState = []\<rparr>"

definition isConnected :: "bool \<Rightarrow> netsh \<Rightarrow> string \<Rightarrow> string \<Rightarrow> error + bool" where
  "isConnected logger w targetSSID_param ifaceName_param =
     (if \<not> logger then Inl (LoggerNotInitialized ''isConnected'')
      else
        (let r = w None showInterfaces in
         case runErr r of
           Some err \<Rightarrow>
             Inl (RunFailed ''isConnected'' err
                    (if errBuf r = [] \<and> Error err = ''exit status 1''
                     then ExitStatusHint 1 else Stderr (errBuf r)))
         | None \<Rightarrow>
             Inr (fst (isConnected_loop targetSSID_param ifaceName_param pstate0
                         (Split (outBuf r))))))"

subsection \<open>isNetworkAvailable\<close>

definition showNetworks :: "string \<Rightarrow> arg list" where
  "showNetworks ifaceName_param =
     [Arg ''wlan'', Arg ''show'', Arg ''networks'',
      Arg (''interface='' @ [CHR 0x22] @ ifaceName_param @ [CHR 0x22]), Arg ''mode=bssid'']"

fun isNetworkAvailable_loop :: "string \<Rightarrow> string list \<Rightarrow> bool" where
  "isNetworkAvailable_loop targetSSID_param [] = False"
| "isNetworkAvailable_loop targetSSID_param (line # lines) =
     (let trimmedLine = TrimSpace line in
      if HasPrefix trimmedLine ''SSID '' then
        (case SplitN trimmedLine of
           [p0, p1] \<Rightarrow>
             if TrimSpace p1 = targetSSID_param then True
             else isNetworkAvailable_loop targetSSID_param lines
         | _ \<Rightarrow> isNetworkAvailable_loop targetSSID_param lines)
      else isNetworkAvailable_loop targetSSID_param lines)"

definition isNetworkAvailable :: "bool \<Rightarrow> netsh \<Rightarrow> string \<Rightarrow> string \<Rightarrow> error + bool" where
  "isNetworkAvailable logger w targetSSID_param ifaceName_param =
     (if \<not> logger then Inl (LoggerNotInitialized ''isNetworkAvailable'')
      else
        (let r = w None (showNetworks ifaceName_param) in
         case runErr r of
           Some err \<Rightarrow>
             (let errMsg = errBuf r in
              if Contains errMsg noNetworksVisible_zh \<or> Contains errMsg noNetworksVisible_en
              then Inr False
              else Inl (RunFailed ''isNetworkAvailable'' err (Stderr errMsg)))
         | None \<Rightarrow> Inr (isNetworkAvailable_loop targetSSID_param (Split (outBuf r)))))"

subsection \<open>connectToWifi\<close>

definition connectArgs :: "string \<Rightarrow> string \<Rightarrow> arg list" where
  "connectArgs ssid iface =
     [Arg ''wlan'', Arg ''connect'', Arg (''name='' @ [CHR 0x22] @ ssid @ [CHR 0x22]),
      Arg (''interface='' @ [CHR 0x22] @ iface @ [CHR 0x22])]"

definition connectToWifi :: "bool \<Rightarrow> netsh \<Rightarrow> string \<Rightarrow> string \<Rightarrow> error option" where
  "connectToWifi logger w ssid iface =
     (if \<not> logger then Some (LoggerNotInitialized ''connectToWifi'')
      else
        (let r = w None (connectArgs ssid iface) in
         case runErr r of
           Some err \<Rightarrow> Some (RunFailed ''connectToWifi'' err (Stderr (errBuf r)))
         | None \<Rightarrow> None))"

subsection \<open>main\<close>

text \<open>
  What the program does is the sequence of its events: the ticks it receives and the
  calls of the three components, each with the value it returned. \<open>setupLogger\<close> sets
  \<open>logger\<close> on each of its paths, so \<open>main\<close> calls the components with the logger set.
  The ticker is the environment. \<open>TickFired\<close> is the program taking a tick from the
  channel of its ticker (\<open>case currentTime := <-ticker.C\<close>): the ticker runs from its
  creation, so a tick can be sent while the program is busy, and the program takes it
  when it next reaches \<open>select\<close>. The program is run on the list of the ticks it has
  taken so far, each with the utility as it answers during the pass that follows that
  tick, and is then blocked in \<open>select\<close> (\<open>Waiting\<close>) for the next one; the loop has no
  exit.

  \<open>time.NewTicker(d)\<close> panics when \<open>d\<close> is not positive (\<open>None\<close>); the program then ends
  where it stands (\<open>Panicked\<close>), with exit status 2.
\<close>

definition NewTicker :: "duration \<Rightarrow> unit option" where
  "NewTicker d = (if d \<le> 0 then None else Some ())"

datatype event =
    TickFired
  | StatusCheck "error + bool"
  | VisibilityCheck "error + bool"
  | Reconnect "error option"

datatype outcome =
    Returned "event list"
  | Exited int "event list"
  | Panicked "event list"
  | Waiting "event list"

text \<open>The body of the \<open>case currentTime := <-ticker.C\<close> branch.\<close>

definition main_tick :: "netsh \<Rightarrow> string \<Rightarrow> event list" where
  "main_tick w effectiveIfaceName =
     (let r = isConnected True w targetSSID effectiveIfaceName in
      case r of
        Inl err \<Rightarrow> [StatusCheck r]
      | Inr connected \<Rightarrow>
          if \<not> connected then
            (let a = isNetworkAvailable True w targetSSID effectiveIfaceName in
             case a of
               Inl availErr \<Rightarrow> [StatusCheck r, VisibilityCheck a]
             | Inr networkVisible \<Rightarrow>
                 if networkVisible
                 then [StatusCheck r, VisibilityCheck a,
                       Reconnect (connectToWifi True w targetSSID effectiveIfaceName)]
                 else [StatusCheck r, VisibilityCheck a])
          else [StatusCheck r])"

fun main_loop :: "string \<Rightarrow> netsh list \<Rightarrow> event list" where
  "main_loop effectiveIfaceName [] = []"
| "main_loop effectiveIfaceName (w # ticks) =
     TickFired # main_tick w effectiveIfaceName @ main_loop effectiveIfaceName ticks"

definition main :: "netsh \<Rightarrow> netsh list \<Rightarrow> outcome" where
  "main w0 ticks =
     (case (if wifiInterfaceName = [] then getWlanInterface True w0
            else Inr wifiInterfaceName) of
        Inl err \<Rightarrow> Returned []
      | Inr effectiveIfaceName \<Rightarrow>
          (case NewTicker checkInterval of
             None \<Rightarrow> Panicked []
           | Some ticker \<Rightarrow> Waiting (main_loop effectiveIfaceName ticks)))"

section \<open>The earlier program (src/unnamed/part_000)\<close>

text \<open>
  Its \<open>getWlanInterface\<close>, \<open>isConnected\<close> and \<open>connectToWifi\<close> are those of \<open>main.go\<close>,
  statement for statement, and so are its constants \<open>targetSSID\<close> and
  \<open>wifiInterfaceName\<close>; its \<open>checkInterval\<close> is 30 seconds; it has no
  \<open>isNetworkAvailable\<close>. Its loop body differs.
\<close>

definition part000_checkInterval :: duration where
  "part000_checkInterval = 30 * Second"

definition part000_tick :: "netsh \<Rightarrow> string \<Rightarrow> event list" where
  "part000_tick w effectiveIfaceName =
     (let r = isConnected True w targetSSID effectiveIfaceName in
      case r of
        Inl err \<Rightarrow> [StatusCheck r]
      | Inr connected \<Rightarrow>
          if \<not> connected
          then [StatusCheck r, Reconnect (connectToWifi True w targetSSID effectiveIfaceName)]
          else [StatusCheck r])"

fun part000_loop :: "string \<Rightarrow> netsh list \<Rightarrow> event list" where
  "part000_loop effectiveIfaceName [] = []"
| "part000_loop effectiveIfaceName (w # ticks) =
     TickFired # part000_tick w effectiveIfaceName @ part000_loop effectiveIfaceName ticks"

definition part000_main :: "netsh \<Rightarrow> netsh list \<Rightarrow> outcome" where
  "part000_main w0 ticks =
     (case (if wifiInterfaceName = [] then getWlanInterface True w0
            else Inr wifiInterfaceName) of
        Inl err \<Rightarrow> Returned []
      | Inr effectiveIfaceName \<Rightarrow>
          (case NewTicker part000_checkInterval of
             None \<Rightarrow> Panicked []
           | Some ticker \<Rightarrow> Waiting (part000_loop effectiveIfaceName ticks)))"

section \<open>The slog program (the Go file that follows the text of src/README.md)\<close>

definition commandTimeout :: duration where
  "commandTimeout = 10 * Second"

text \<open>The parameter \<open>targetSSID\<close> of its functions is written \<open>target\<close> here, the
  name being taken by the constant of \<open>main.go\<close>.\<close>

subsection \<open>runNetshCommand\<close>

definition runNetshCommand :: "netsh \<Rightarrow> duration \<Rightarrow> arg list \<Rightarrow> string \<times> string \<times> error option" where
  "runNetshCommand w timeout args =
     (let r = w (Some timeout) args;
          stdout = outBuf r;
          stderr = errBuf r
      in if deadlineExceeded r then (stdout, stderr, Some (CommandTimeout args timeout))
         else (case runErr r of
                 Some err \<Rightarrow> (stdout, stderr, Some (CommandFailed args err (TrimSpace stderr)))
               | None \<Rightarrow> (stdout, stderr, None)))"

subsection \<open>getWlanInterface\<close>

fun slog_getWlanInterface_loop :: "string list \<Rightarrow> string option" where
  "slog_getWlanInterface_loop [] = None"
| "slog_getWlanInterface_loop (line # lines) =
     (let trimmedLine = TrimSpace line in
      if HasPrefix trimmedLine keywordInterfaceName \<or> HasPrefix trimmedLine ''Name'' then
        (case SplitN trimmedLine of
           [p0, p1] \<Rightarrow>
             (let ifaceName = TrimSpace p1 in
              if ifaceName \<noteq> [] then Some ifaceName else slog_getWlanInterface_loop lines)
         | _ \<Rightarrow> slog_getWlanInterface_loop lines)
      else slog_getWlanInterface_loop lines)"

definition slog_getWlanInterface :: "netsh \<Rightarrow> error + string" where
  "slog_getWlanInterface w =
     (case runNetshCommand w commandTimeout showInterfaces of
        (stdout, _, Some err) \<Rightarrow> Inl (Wrapped ''getWlanInterface'' err)
      | (stdout, _, None) \<Rightarrow>
          (case slog_getWlanInterface_loop (Split stdout) of
             Some ifaceName \<Rightarrow> Inr ifaceName
           | None \<Rightarrow> Inl InterfaceNotDetected))"

subsection \<open>isConnected\<close>

definition slog_isConnected_line :: "string \<Rightarrow> string \<Rightarrow> pstate \<Rightarrow> string \<Rightarrow> step" where
  "slog_isConnected_line target interfaceName st line =
     (let trimmedLine = TrimSpace line in
      if HasPrefix trimmedLine keywordInterfaceName \<and> Contains trimmedLine '':'' then
        (case SplitN trimmedLine of
           [p0, p1] \<Rightarrow>
             if TrimSpace p1 = interfaceName
             then Continue \<lparr>inTargetInterfaceBlock = True, blockParsedSSID = [],
                            blockParsedState = []\<rparr>
             else Continue (st\<lparr>inTargetInterfaceBlock := False\<rparr>)
         | _ \<Rightarrow> Continue st)
      else if inTargetInterfaceBlock st then
        (let st1 =
               (if HasPrefix trimmedLine keywordSSID \<and> \<not> Contains trimmedLine ''AP BSSID''
                   \<and> Contains trimmedLine '':''
                then (case SplitN trimmedLine of
                        [p0, p1] \<Rightarrow> st\<lparr>blockParsedSSID := TrimSpace p1\<rparr>
                      | _ \<Rightarrow> st)
                else if HasPrefix trimmedLine keywordState \<and> Contains trimmedLine '':''
                then (case SplitN trimmedLine of
                        [p0, p1] \<Rightarrow> st\<lparr>blockParsedState := TrimSpace p1\<rparr>
                      | _ \<Rightarrow> st)
                else st)
         in if blockParsedSSID st1 \<noteq> [] \<and> blockParsedState st1 \<noteq> [] then
              (if blockParsedSSID st1 = target
                  \<and> blockParsedState st1 = keywordConnectedState
               then Return True st1
               else if blockParsedSSID st1 = target
                       \<and> blockParsedState st1 \<noteq> keywordConnectedState
               then Return False st1
               else Continue st1)
            else Continue st1)
      else Continue st)"

fun slog_isConnected_loop :: "string \<Rightarrow> string \<Rightarrow> pstate \<Rightarrow> string list \<Rightarrow> bool \<times> pstate" where
  "slog_isConnected_loop target interfaceName st [] = (False, st)"
| "slog_isConnected_loop target interfaceName st (line # lines) =
     (case slog_isConnected_line target interfaceName st line of
        Return b st' \<Rightarrow> (b, st')
      | Continue st' \<Rightarrow> slog_isConnected_loop target interfaceName st' lines)"

text \<open>\<open>errors.As(err, &exitErr)\<close> finds the \<open>*exec.ExitError\<close> that \<open>runNetshCommand\<close>
  wrapped with \<open>%w\<close>; the timeout error wraps nothing.\<close>

fun asExitError :: "error \<Rightarrow> int option" where
  "asExitError (CommandFailed args err stderr) = ExitCode err"
| "asExitError _ = None"

definition slog_isConnected :: "netsh \<Rightarrow> string \<Rightarrow> string \<Rightarrow> error + bool" where
  "slog_isConnected w target interfaceName =
     (case runNetshCommand w commandTimeout showInterfaces of
        (stdout, stderr, Some err) \<Rightarrow>
          Inl (StatusQueryFailed err
                 (if stderr = []
                  then (case asExitError err of
                          Some code \<Rightarrow> ExitStatusHint code
                        | None \<Rightarrow> Stderr stderr)
                  else Stderr stderr))
      | (stdout, stderr, None) \<Rightarrow>
          Inr (fst (slog_isConnected_loop target interfaceName pstate0 (Split stdout))))"

subsection \<open>isNetworkAvailable\<close>

definition slog_showNetworks :: "string \<Rightarrow> arg list" where
  "slog_showNetworks interfaceName =
     [Arg ''wlan'', Arg ''show'', Arg ''networks'', ArgQ ''interface='' interfaceName,
      Arg ''mode=bssid'']"

fun slog_isNetworkAvailable_loop :: "string \<Rightarrow> string list \<Rightarrow> bool" where
  "slog_isNetworkAvailable_loop target [] = False"
| "slog_isNetworkAvailable_loop target (line # lines) =
     (let trimmedLine = TrimSpace line in
      if HasPrefix trimmedLine ''SSID '' then
        (case SplitN trimmedLine of
           [p0, p1] \<Rightarrow>
             if TrimSpace p1 = target then True
             else slog_isNetworkAvailable_loop target lines
         | _ \<Rightarrow> slog_isNetworkAvailable_loop target lines)
      else slog_isNetworkAvailable_loop target lines)"

definition slog_isNetworkAvailable :: "netsh \<Rightarrow> string \<Rightarrow> string \<Rightarrow> error + bool" where
  "slog_isNetworkAvailable w target interfaceName =
     (case runNetshCommand w commandTimeout (slog_showNetworks interfaceName) of
        (stdout, stderr, Some err) \<Rightarrow>
          if Contains stderr noNetworksVisible_zh \<or> Contains stderr noNetworksVisible_en
          then Inr False
          else Inl (Wrapped ''isNetworkAvailable'' err)
      | (stdout, stderr, None) \<Rightarrow>
          Inr (slog_isNetworkAvailable_loop target (Split stdout)))"

subsection \<open>connectToWifi\<close>

definition slog_connectArgs :: "string \<Rightarrow> string \<Rightarrow> arg list" where
  "slog_connectArgs target interfaceName =
     [Arg ''wlan'', Arg ''connect'', ArgQ ''name='' target,
      ArgQ ''interface='' interfaceName]"

definition slog_connectToWifi :: "netsh \<Rightarrow> string \<Rightarrow> string \<Rightarrow> error option" where
  "slog_connectToWifi w target interfaceName =
     (case runNetshCommand w (commandTimeout * 2) (slog_connectArgs target interfaceName) of
        (_, stderr, Some err) \<Rightarrow> Some (Wrapped ''connectToWifi'' err)
      | (_, stderr, None) \<Rightarrow> None)"

subsection \<open>performCheckAndConnect and main\<close>

definition performCheckAndConnect :: "netsh \<Rightarrow> string \<Rightarrow> string \<Rightarrow> event list" where
  "performCheckAndConnect w target interfaceName =
     (let r = slog_isConnected w target interfaceName in
      case r of
        Inl err \<Rightarrow> [StatusCheck r]
      | Inr connected \<Rightarrow>
          if connected then [StatusCheck r]
          else
            (let a = slog_isNetworkAvailable w target interfaceName in
             case a of
               Inl availErr \<Rightarrow> [StatusCheck r, VisibilityCheck a]
             | Inr networkVisible \<Rightarrow>
                 if networkVisible
                 then [StatusCheck r, VisibilityCheck a,
                       Reconnect (slog_connectToWifi w target interfaceName)]
                 else [StatusCheck r, VisibilityCheck a]))"

fun slog_loop :: "string \<Rightarrow> string \<Rightarrow> netsh list \<Rightarrow> event list" where
  "slog_loop target effectiveIfaceName [] = []"
| "slog_loop target effectiveIfaceName (w # ticks) =
     TickFired # performCheckAndConnect w target effectiveIfaceName
       @ slog_loop target effectiveIfaceName ticks"

text \<open>\<open>main\<close> after \<open>flag.Parse()\<close>: the values of \<open>-ssid\<close>, \<open>-interface\<close> and \<open>-interval\<close>
  (\<open>flag.Duration\<close> accepts zero and negative durations), the utility as it answers
  during the detection of the interface (\<open>w0\<close>) and during the pass made before the loop
  (\<open>w1\<close>), and the ticks. The ticker is created before that pass.\<close>

definition slog_main :: "string \<Rightarrow> string \<Rightarrow> duration \<Rightarrow> netsh \<Rightarrow> netsh \<Rightarrow> netsh list \<Rightarrow> outcome" where
  "slog_main targetSSIDFlag wifiInterfaceFlag checkIntervalFlag w0 w1 ticks =
     (if targetSSIDFlag = [] then Exited 1 []
      else
        (case (if wifiInterfaceFlag = [] then slog_getWlanInterface w0
               else Inr wifiInterfaceFlag) of
           Inl err \<Rightarrow> Exited 1 []
         | Inr effectiveIfaceName \<Rightarrow>
             (case NewTicker checkIntervalFlag of
                None \<Rightarrow> Panicked []
              | Some ticker \<Rightarrow>
                  Waiting (performCheckAndConnect w1 targetSSIDFlag effectiveIfaceName
                             @ slog_loop targetSSIDFlag effectiveIfaceName ticks))))"

section \<open>Notions used in the statements\<close>

text \<open>The variables of the parsing loop as they stand when \<open>isConnected\<close> returns: the
  values parsed from the block of the requested interface.\<close>

definition parsedBlock :: "string \<Rightarrow> string \<Rightarrow> string \<Rightarrow> pstate" where
  "parsedBlock targetSSID_param ifaceName_param output =
     snd (isConnected_loop targetSSID_param ifaceName_param pstate0 (Split output))"

definition slog_parsedBlock :: "string \<Rightarrow> string \<Rightarrow> string \<Rightarrow> pstate" where
  "slog_parsedBlock target interfaceName stdout =
     snd (slog_isConnected_loop target interfaceName pstate0 (Split stdout))"

text \<open>The loop has not decided yet: the parsed SSID is not the target, or no state has
  been parsed (for the slog program: or no SSID has been parsed).\<close>

definition undecided :: "string \<Rightarrow> pstate \<Rightarrow> bool" where
  "undecided tgt st = (blockParsedSSID st = tgt \<longrightarrow> blockParsedState st = [])"

definition slog_undecided :: "string \<Rightarrow> pstate \<Rightarrow> bool" where
  "slog_undecided tgt st =
     (blockParsedSSID st = tgt \<and> blockParsedSSID st \<noteq> [] \<longrightarrow> blockParsedState st = [])"

text \<open>A line that starts the block of the interface \<open>ifaceName\<close>, and a line that gives a
  non-empty interface name under the label \<open>label\<close>.\<close>

definition opensTargetBlock :: "string \<Rightarrow> string \<Rightarrow> bool" where
  "opensTargetBlock ifaceName line =
     (let trimmedLine = TrimSpace line in
      HasPrefix trimmedLine keywordInterfaceName
      \<and> (case SplitN trimmedLine of [p0, p1] \<Rightarrow> TrimSpace p1 = ifaceName | _ \<Rightarrow> False))"

definition namesInterface :: "string \<Rightarrow> string \<Rightarrow> bool" where
  "namesInterface label line =
     (let trimmedLine = TrimSpace line in
      HasPrefix trimmedLine label
      \<and> (case SplitN trimmedLine of [p0, p1] \<Rightarrow> TrimSpace p1 \<noteq> [] | _ \<Rightarrow> False))"

text \<open>The lines of a block as \<open>netsh\<close> prints it: a line the parser takes the SSID from,
  a line it takes the state from, the value such a line gives (the trimmed text after its
  first colon), and a line that is neither of these nor the start of a block.\<close>

definition ssidSource :: "string \<Rightarrow> bool" where
  "ssidSource line =
     (let trimmedLine = TrimSpace line in
      HasPrefix trimmedLine ''SSID'' \<and> \<not> Contains trimmedLine ''AP BSSID''
      \<and> CHR '':'' \<in> set trimmedLine)"

definition stateSource :: "string \<Rightarrow> bool" where
  "stateSource line =
     (let trimmedLine = TrimSpace line in
      HasPrefix trimmedLine keywordState \<and> CHR '':'' \<in> set trimmedLine)"

definition valueOf :: "string \<Rightarrow> string" where
  "valueOf line = TrimSpace (drop 1 (dropWhile (\<lambda>c. c \<noteq> CHR '':'') (TrimSpace line)))"

definition plainLine :: "string \<Rightarrow> bool" where
  "plainLine line =
     (\<not> HasPrefix (TrimSpace line) keywordInterfaceName \<and> \<not> ssidSource line
      \<and> \<not> stateSource line)"

text \<open>
  The block of an interface, read off the text of a status report and not off the run of
  the parser. A line starts a block when its trimmed text begins with the name label and
  has a colon. The block of the interface \<open>ifaceName\<close> is made of the lines after the
  first line that names it, up to the next line that starts a block (\<open>None\<close> when no line
  names the interface). The SSID of the block is the value of its SSID line and the state
  of the block is the value of its state line, each empty when the block has no such
  line.
\<close>

definition startsBlock :: "string \<Rightarrow> bool" where
  "startsBlock line =
     (let trimmedLine = TrimSpace line in
      HasPrefix trimmedLine keywordInterfaceName \<and> CHR '':'' \<in> set trimmedLine)"

definition targetBlock :: "string \<Rightarrow> string list \<Rightarrow> string list option" where
  "targetBlock ifaceName lines =
     (case dropWhile (\<lambda>l. \<not> opensTargetBlock ifaceName l) lines of
        [] \<Rightarrow> None
      | nameLine # rest \<Rightarrow> Some (takeWhile (\<lambda>l. \<not> startsBlock l) rest))"

definition firstValue :: "(string \<Rightarrow> bool) \<Rightarrow> string list \<Rightarrow> string" where
  "firstValue P block = (case filter P block of [] \<Rightarrow> [] | line # _ \<Rightarrow> valueOf line)"

definition blockSSID :: "string \<Rightarrow> string list \<Rightarrow> string" where
  "blockSSID ifaceName lines =
     (case targetBlock ifaceName lines of None \<Rightarrow> [] | Some block \<Rightarrow> firstValue ssidSource block)"

definition blockState :: "string \<Rightarrow> string list \<Rightarrow> string" where
  "blockState ifaceName lines =
     (case targetBlock ifaceName lines of None \<Rightarrow> [] | Some block \<Rightarrow> firstValue stateSource block)"

text \<open>
  A status report as \<open>netsh\<close> prints it: the block of the interface has at most one SSID
  line and at most one state line, and no later block is for the same interface.
\<close>

definition validStatusOutput :: "string \<Rightarrow> string list \<Rightarrow> bool" where
  "validStatusOutput ifaceName lines =
     (case dropWhile (\<lambda>l. \<not> opensTargetBlock ifaceName l) lines of
        [] \<Rightarrow> True
      | nameLine # rest \<Rightarrow>
          length (filter ssidSource (takeWhile (\<lambda>l. \<not> startsBlock l) rest)) \<le> 1
          \<and> length (filter stateSource (takeWhile (\<lambda>l. \<not> startsBlock l) rest)) \<le> 1
          \<and> list_all (\<lambda>l. \<not> opensTargetBlock ifaceName l)
                (dropWhile (\<lambda>l. \<not> startsBlock l) rest))"

text \<open>
  For the invariant of the loop inside a block: no value is parsed yet for a label whose
  line is still to come, and the SSID and the state that stand in the variables once the
  lines of \<open>block\<close> have been read.
\<close>

definition pending :: "pstate \<Rightarrow> string list \<Rightarrow> bool" where
  "pending st block =
     ((filter ssidSource block = [] \<or> blockParsedSSID st = [])
      \<and> (filter stateSource block = [] \<or> blockParsedState st = []))"

definition ssidAfter :: "pstate \<Rightarrow> string list \<Rightarrow> string" where
  "ssidAfter st block =
     (case filter ssidSource block of [] \<Rightarrow> blockParsedSSID st | l # _ \<Rightarrow> valueOf l)"

definition stateAfter :: "pstate \<Rightarrow> string list \<Rightarrow> string" where
  "stateAfter st block =
     (case filter stateSource block of [] \<Rightarrow> blockParsedState st | l # _ \<Rightarrow> valueOf l)"

text \<open>
  A line that carries the access-point identifier: its trimmed text starts with the label
  \<open>SSID\<close> and contains the marker \<open>AP BSSID\<close>, or it starts with \<open>BSSID\<close> or with
  \<open>AP BSSID\<close>, the two forms in which \<open>netsh\<close> prints that field.
\<close>

definition accessPointLine :: "string \<Rightarrow> bool" where
  "accessPointLine line =
     (let trimmedLine = TrimSpace line in
      (HasPrefix trimmedLine ''SSID'' \<and> Contains trimmedLine ''AP BSSID'')
      \<or> HasPrefix trimmedLine ''BSSID'' \<or> HasPrefix trimmedLine ''AP BSSID'')"

text \<open>The variables an iteration of the parsing loop leaves behind, whether it goes on or
  returns.\<close>

fun stateOf :: "step \<Rightarrow> pstate" where
  "stateOf (Continue st) = st"
| "stateOf (Return b st) = st"

text \<open>A line of the scan output that lists the network \<open>target\<close>.\<close>

definition listsSSID :: "string \<Rightarrow> string \<Rightarrow> bool" where
  "listsSSID target line =
     (let trimmedLine = TrimSpace line in
      HasPrefix trimmedLine ''SSID ''
      \<and> (case SplitN trimmedLine of [p0, p1] \<Rightarrow> TrimSpace p1 = target | _ \<Rightarrow> False))"

text \<open>The three outcomes of \<open>runNetshCommand\<close>, read off the error it returns; the
  second is every failure of \<open>cmd.Run()\<close> without the deadline exceeded, of which a
  non-zero exit status is the usual one.\<close>

datatype run_outcome = Succeeded | Failed | TimedOut

fun outcomeOf :: "error option \<Rightarrow> run_outcome option" where
  "outcomeOf None = Some Succeeded"
| "outcomeOf (Some (CommandFailed args err stderr)) = Some Failed"
| "outcomeOf (Some (CommandTimeout args timeout)) = Some TimedOut"
| "outcomeOf (Some _) = None"

text \<open>A pass calls the reconnector, or the visibility scanner.\<close>

definition reconnects :: "event list \<Rightarrow> bool" where
  "reconnects evs = list_ex (\<lambda>e. case e of Reconnect r \<Rightarrow> True | _ \<Rightarrow> False) evs"

definition checksVisibility :: "event list \<Rightarrow> bool" where
  "checksVisibility evs = list_ex (\<lambda>e. case e of VisibilityCheck r \<Rightarrow> True | _ \<Rightarrow> False) evs"

subsection \<open>Sample outputs\<close>

text \<open>
  Outputs of the utility on which the statements are evaluated: a status report with one
  block, for the interface WLAN, connected to \<open>home_5G\<close>; a block that gives neither state
  nor SSID; a line that carries the label \<open>SSID\<close> and the marker \<open>AP BSSID\<close>; the
  access-point line as \<open>netsh\<close> prints it; a line that starts with \<open>SSID\<close> and contains
  \<open>BSSID\<close> without the marker \<open>AP BSSID\<close>, and a status report whose SSID is given by
  that line; a status report of an interface that is authenticating with \<open>home_5G\<close>; a
  status report with English labels; and a scan report listing two networks.
  \<open>answers output\<close> is the utility that prints \<open>output\<close> and succeeds, whatever it is
  asked.
\<close>

definition LF :: string where
  "LF = [CHR 0x0A]"

definition example_status :: string where
  "example_status =
     '' '' @ keywordInterfaceName @ '' : WLAN'' @ LF
     @ '' '' @ keywordState @ '' : '' @ keywordConnectedState @ [CHR 0x0D] @ LF
     @ '' SSID : home_5G'' @ LF
     @ '' AP BSSID : 00:11''"

definition example_bare_block :: string where
  "example_bare_block = '' '' @ keywordInterfaceName @ '' : WLAN'' @ LF @ '' GUID : 1234''"

definition answers :: "string \<Rightarrow> netsh" where
  "answers output = (\<lambda>t args. \<lparr>outBuf = output, errBuf = [], runErr = None,
                                  deadlineExceeded = False\<rparr>)"

definition example_marked :: string where
  "example_marked = '' SSID AP BSSID : home_5G''"

definition example_bssid :: string where
  "example_bssid = '' BSSID : 00:11:22:33:44:55''"

definition example_slash :: string where
  "example_slash = '' SSID/BSSID : home_5G''"

definition example_slash_status :: string where
  "example_slash_status =
     '' '' @ keywordInterfaceName @ '' : WLAN'' @ LF
     @ '' '' @ keywordState @ '' : '' @ keywordConnectedState @ LF
     @ example_slash"

definition example_authenticating :: string where
  "example_authenticating =
     '' '' @ keywordInterfaceName @ '' : WLAN'' @ LF
     @ '' '' @ keywordState @ '' : authenticating'' @ LF
     @ '' SSID : home_5G''"

definition example_english :: string where
  "example_english = '' Name : Wi-Fi'' @ LF @ '' State : connected'' @ LF @ '' SSID : home_5G''"

definition example_scan :: string where
  "example_scan =
     ''SSID 1 : home_5G'' @ LF @ '' Network type : Infrastructure'' @ LF @ ''SSID 2 : cafe''"

text \<open>The utility failing with exit status 1 and the given text on stderr; and the
  utility that completes the connect when it is given all the time it needs and is cut off
  by every time limit.\<close>

definition fails_with :: "string \<Rightarrow> netsh" where
  "fails_with stderr = (\<lambda>t args. \<lparr>outBuf = [], errBuf = stderr,
       runErr = Some \<lparr>Error = ''exit status 1'', ExitCode = Some 1\<rparr>,
       deadlineExceeded = False\<rparr>)"

definition only_unbounded :: netsh where
  "only_unbounded =
     (\<lambda>t args. case t of
        None \<Rightarrow> \<lparr>outBuf = ''Connection request was completed successfully.'', errBuf = [],
                  runErr = None, deadlineExceeded = False\<rparr>
      | Some d \<Rightarrow> \<lparr>outBuf = [], errBuf = [],
                    runErr = Some \<lparr>Error = ''signal: killed'', ExitCode = Some (- 1)\<rparr>,
                    deadlineExceeded = True\<rparr>)"

section \<open>The status parser: its loop\<close>

lemma keywordConnectedState_nonempty: "keywordConnectedState \<noteq> []"
  by (simp add: keywordConnectedState_def)

lemma isConnected_line_Continue:
  assumes "undecided tgt st" and "isConnected_line tgt iface st l = Continue st'"
  shows "undecided tgt st'"
  using assms unfolding isConnected_line_def Let_def undecided_def
  by (auto split: if_splits list.splits)

lemma isConnected_line_Return:
  assumes "isConnected_line tgt iface st l = Return b st'"
  shows "b \<longleftrightarrow> blockParsedSSID st' = tgt \<and> blockParsedState st' = keywordConnectedState"
  using assms unfolding isConnected_line_def Let_def
  by (auto split: if_splits list.splits)

lemma slog_line_Continue:
  assumes "slog_undecided tgt st" and "slog_isConnected_line tgt iface st l = Continue st'"
  shows "slog_undecided tgt st'"
  using assms unfolding slog_isConnected_line_def Let_def slog_undecided_def
  by (auto split: if_splits list.splits)

lemma slog_line_Return:
  assumes "slog_isConnected_line tgt iface st l = Return b st'"
  shows "b \<longleftrightarrow> blockParsedSSID st' = tgt \<and> blockParsedState st' = keywordConnectedState"
  using assms unfolding slog_isConnected_line_def Let_def
  by (auto split: if_splits list.splits)

lemma undecided_pstate0: "undecided tgt pstate0" "slog_undecided tgt pstate0"
  by (simp_all add: undecided_def slog_undecided_def pstate0_def)

lemma runNetshCommand_ok:
  assumes "\<not> deadlineExceeded (w (Some t) args)" and "runErr (w (Some t) args) = None"
  shows "runNetshCommand w t args = (outBuf (w (Some t) args), errBuf (w (Some t) args), None)"
  using assms by (simp add: runNetshCommand_def Let_def)

lemma isConnected_line_outside:
  assumes "\<not> inTargetInterfaceBlock st" and "\<not> opensTargetBlock iface l"
  shows "\<exists>st'. isConnected_line tgt iface st l = Continue st' \<and> \<not> inTargetInterfaceBlock st'"
  using assms unfolding isConnected_line_def opensTargetBlock_def Let_def
  by (auto split: list.splits)

lemma slog_line_outside:
  assumes "\<not> inTargetInterfaceBlock st" and "\<not> opensTargetBlock iface l"
  shows "\<exists>st'. slog_isConnected_line tgt iface st l = Continue st'
               \<and> \<not> inTargetInterfaceBlock st'"
  using assms unfolding slog_isConnected_line_def opensTargetBlock_def Let_def
  by (auto split: list.splits)

lemma isConnected_loop_no_block:
  assumes "\<not> inTargetInterfaceBlock st" and "\<forall>l \<in> set ls. \<not> opensTargetBlock iface l"
  shows "fst (isConnected_loop tgt iface st ls) = False"
  using assms
proof (induction ls arbitrary: st)
  case Nil
  then show ?case by simp
next
  case (Cons l ls)
  from Cons.prems obtain st' where
    "isConnected_line tgt iface st l = Continue st'" "\<not> inTargetInterfaceBlock st'"
    using isConnected_line_outside [of st iface l tgt] by auto
  with Cons show ?case by simp
qed

lemma slog_loop_no_block:
  assumes "\<not> inTargetInterfaceBlock st" and "\<forall>l \<in> set ls. \<not> opensTargetBlock iface l"
  shows "fst (slog_isConnected_loop tgt iface st ls) = False"
  using assms
proof (induction ls arbitrary: st)
  case Nil
  then show ?case by simp
next
  case (Cons l ls)
  from Cons.prems obtain st' where
    "slog_isConnected_line tgt iface st l = Continue st'" "\<not> inTargetInterfaceBlock st'"
    using slog_line_outside [of st iface l tgt] by auto
  with Cons show ?case by simp
qed

lemma isConnected_loop_true_state:
  "isConnected_loop tgt iface st ls = (True, st') \<Longrightarrow> blockParsedState st' = keywordConnectedState"
proof (induction ls arbitrary: st)
  case Nil
  then show ?case by simp
next
  case (Cons l ls)
  then show ?case
    by (cases "isConnected_line tgt iface st l") (auto dest: isConnected_line_Return)
qed

lemma slog_loop_true_state:
  "slog_isConnected_loop tgt iface st ls = (True, st') \<Longrightarrow>
     blockParsedState st' = keywordConnectedState"
proof (induction ls arbitrary: st)
  case Nil
  then show ?case by simp
next
  case (Cons l ls)
  then show ?case
    by (cases "slog_isConnected_line tgt iface st l") (auto dest: slog_line_Return)
qed

lemma SSID_not_other_label:
  assumes "HasPrefix t ''SSID''"
  shows "\<not> HasPrefix t keywordInterfaceName" and "\<not> HasPrefix t keywordState"
  using assms by (cases t; simp add: keywordInterfaceName_def keywordState_def)+

lemma not_labelled_not_opening:
  "\<not> HasPrefix (TrimSpace l) keywordInterfaceName \<Longrightarrow> \<not> opensTargetBlock iface l"
  by (simp add: opensTargetBlock_def Let_def)

lemma getWlanInterface_loop_finds:
  assumes "\<exists>l \<in> set ls. namesInterface keywordInterfaceName l \<or> namesInterface ''Name'' l"
  shows "getWlanInterface_loop d ls \<noteq> []"
  using assms
proof (induction ls arbitrary: d)
  case Nil
  then show ?case by simp
next
  case (Cons l ls)
  show ?case
  proof (cases "namesInterface keywordInterfaceName l \<or> namesInterface ''Name'' l")
    case True
    then show ?thesis
      by (auto simp: namesInterface_def Let_def split: list.splits)
  next
    case False
    with Cons.prems have "\<exists>l \<in> set ls. namesInterface keywordInterfaceName l
                            \<or> namesInterface ''Name'' l"
      by auto
    then have "getWlanInterface_loop d' ls \<noteq> []" for d'
      by (rule Cons.IH)
    then show ?thesis
      by (auto simp: Let_def split: list.splits)
  qed
qed

lemma slog_getWlanInterface_loop_finds:
  assumes "\<exists>l \<in> set ls. namesInterface keywordInterfaceName l \<or> namesInterface ''Name'' l"
  shows "\<exists>n. slog_getWlanInterface_loop ls = Some n"
  using assms
proof (induction ls)
  case Nil
  then show ?case by simp
next
  case (Cons l ls)
  show ?case
  proof (cases "namesInterface keywordInterfaceName l \<or> namesInterface ''Name'' l")
    case True
    then show ?thesis
      by (auto simp: namesInterface_def Let_def split: list.splits)
  next
    case False
    with Cons.prems have "\<exists>l \<in> set ls. namesInterface keywordInterfaceName l
                            \<or> namesInterface ''Name'' l"
      by auto
    then have "\<exists>n. slog_getWlanInterface_loop ls = Some n"
      by (rule Cons.IH)
    then show ?thesis
      by (auto simp: Let_def split: list.splits)
  qed
qed

subsection \<open>The parser on the layout that netsh prints\<close>

text \<open>
  In a status report the block of an interface starts with its name line and gives its
  state and its SSID on one line each, in either order. For a non-empty target the loop
  answers on such a report exactly whether the SSID of the block is the target and the
  state of the block is the connected token. Inside the block the loop decides at the
  second of the two lines, or runs to the end of the block undecided; after the block it
  changes its variables no more.
\<close>

lemma Contains_colon: "Contains t '':'' \<longleftrightarrow> CHR '':'' \<in> set t"
  by (induction t) auto

lemma SplitN_cases:
  "SplitN t = (if CHR '':'' \<in> set t
               then [takeWhile (\<lambda>c. c \<noteq> CHR '':'') t, drop 1 (dropWhile (\<lambda>c. c \<noteq> CHR '':'') t)]
               else [t])"
  by (simp add: SplitN_def)

lemma state_not_other_label:
  assumes "HasPrefix t keywordState"
  shows "\<not> HasPrefix t keywordInterfaceName" and "\<not> HasPrefix t ''SSID''"
  using assms by (cases t; simp add: keywordInterfaceName_def keywordState_def)+

lemma line_outside_id:
  assumes "\<not> inTargetInterfaceBlock st" and "\<not> opensTargetBlock iface l"
  shows "isConnected_line tgt iface st l = Continue st"
    and "slog_isConnected_line tgt iface st l = Continue st"
  using assms unfolding isConnected_line_def slog_isConnected_line_def opensTargetBlock_def Let_def
  by (auto split: list.splits)

lemma line_opening:
  assumes "opensTargetBlock iface l"
  shows "isConnected_line tgt iface st l
           = Continue \<lparr>inTargetInterfaceBlock = True, blockParsedSSID = [], blockParsedState = []\<rparr>"
    and "slog_isConnected_line tgt iface st l
           = Continue \<lparr>inTargetInterfaceBlock = True, blockParsedSSID = [], blockParsedState = []\<rparr>"
  using assms unfolding isConnected_line_def slog_isConnected_line_def opensTargetBlock_def Let_def
  by (auto simp: Contains_colon SplitN_cases split: list.splits if_splits)

lemma line_plain:
  assumes "plainLine l" and "undecided tgt st"
  shows "isConnected_line tgt iface st l = Continue st"
  using assms keywordConnectedState_nonempty
  unfolding isConnected_line_def plainLine_def ssidSource_def stateSource_def Let_def undecided_def
  by (auto simp: SplitN_cases)

lemma slog_line_plain:
  assumes "plainLine l" and "slog_undecided tgt st"
  shows "slog_isConnected_line tgt iface st l = Continue st"
proof -
  let ?t = "TrimSpace l"
  from assms(1) have n: "HasPrefix ?t keywordInterfaceName = False"
    and s: "(HasPrefix ?t keywordSSID \<and> \<not> Contains ?t ''AP BSSID'' \<and> Contains ?t '':'') = False"
    and x: "(HasPrefix ?t keywordState \<and> Contains ?t '':'') = False"
    by (simp_all add: plainLine_def ssidSource_def stateSource_def Let_def Contains_colon
        keywordSSID_def)
  from assms(2) show ?thesis
    unfolding slog_isConnected_line_def Let_def n s x slog_undecided_def by auto
qed

lemma line_state:
  assumes "stateSource l" and "inTargetInterfaceBlock st"
  shows "isConnected_line tgt iface st l =
           (let st2 = st\<lparr>blockParsedState := valueOf l\<rparr> in
            if blockParsedSSID st2 = tgt \<and> blockParsedState st2 = keywordConnectedState
            then Return True st2
            else if blockParsedSSID st2 = tgt \<and> blockParsedState st2 \<noteq> []
                    \<and> blockParsedState st2 \<noteq> keywordConnectedState
            then Return False st2 else Continue st2)"
  using assms state_not_other_label [of "TrimSpace l"]
  unfolding isConnected_line_def stateSource_def valueOf_def
  by (simp add: SplitN_cases Let_def)

lemma line_ssid:
  assumes "ssidSource l" and "inTargetInterfaceBlock st"
  shows "isConnected_line tgt iface st l =
           (let st2 = st\<lparr>blockParsedSSID := valueOf l\<rparr> in
            if blockParsedSSID st2 = tgt \<and> blockParsedState st2 = keywordConnectedState
            then Return True st2
            else if blockParsedSSID st2 = tgt \<and> blockParsedState st2 \<noteq> []
                    \<and> blockParsedState st2 \<noteq> keywordConnectedState
            then Return False st2 else Continue st2)"
  using assms SSID_not_other_label [of "TrimSpace l"]
  unfolding isConnected_line_def ssidSource_def valueOf_def
  by (simp add: SplitN_cases Let_def)

lemma loop_skip_outside:
  assumes "\<not> inTargetInterfaceBlock st" and "\<forall>l \<in> set pre. \<not> opensTargetBlock iface l"
  shows "isConnected_loop tgt iface st (pre @ rest) = isConnected_loop tgt iface st rest"
  using assms by (induction pre) (simp_all add: line_outside_id)

lemma slog_line_state:
  assumes "stateSource l" and "inTargetInterfaceBlock st"
  shows "slog_isConnected_line tgt iface st l =
           (let st1 = st\<lparr>blockParsedState := valueOf l\<rparr> in
            if blockParsedSSID st1 \<noteq> [] \<and> blockParsedState st1 \<noteq> [] then
              (if blockParsedSSID st1 = tgt \<and> blockParsedState st1 = keywordConnectedState
               then Return True st1
               else if blockParsedSSID st1 = tgt
                       \<and> blockParsedState st1 \<noteq> keywordConnectedState
               then Return False st1 else Continue st1)
            else Continue st1)"
  using assms state_not_other_label [of "TrimSpace l"]
  unfolding slog_isConnected_line_def stateSource_def valueOf_def keywordSSID_def
  by (simp add: SplitN_cases Contains_colon Let_def)

lemma slog_line_ssid:
  assumes "ssidSource l" and "inTargetInterfaceBlock st"
  shows "slog_isConnected_line tgt iface st l =
           (let st1 = st\<lparr>blockParsedSSID := valueOf l\<rparr> in
            if blockParsedSSID st1 \<noteq> [] \<and> blockParsedState st1 \<noteq> [] then
              (if blockParsedSSID st1 = tgt \<and> blockParsedState st1 = keywordConnectedState
               then Return True st1
               else if blockParsedSSID st1 = tgt
                       \<and> blockParsedState st1 \<noteq> keywordConnectedState
               then Return False st1 else Continue st1)
            else Continue st1)"
  using assms SSID_not_other_label [of "TrimSpace l"]
  unfolding slog_isConnected_line_def ssidSource_def valueOf_def keywordSSID_def
  by (simp add: SplitN_cases Contains_colon Let_def)

lemma slog_loop_skip_outside:
  assumes "\<not> inTargetInterfaceBlock st" and "\<forall>l \<in> set pre. \<not> opensTargetBlock iface l"
  shows "slog_isConnected_loop tgt iface st (pre @ rest) = slog_isConnected_loop tgt iface st rest"
  using assms by (induction pre) (simp_all add: line_outside_id)

lemma opens_iff: "opensTargetBlock iface l \<longleftrightarrow> startsBlock l \<and> valueOf l = iface"
  by (auto simp: opensTargetBlock_def startsBlock_def valueOf_def Let_def SplitN_cases)

lemma line_other:
  assumes "\<not> startsBlock l" "\<not> ssidSource l" "\<not> stateSource l" "undecided tgt st"
  shows "isConnected_line tgt iface st l = Continue st"
proof (cases "HasPrefix (TrimSpace l) keywordInterfaceName")
  case True
  with assms(1) have "CHR '':'' \<notin> set (TrimSpace l)" by (simp add: startsBlock_def Let_def)
  with True show ?thesis by (simp add: isConnected_line_def Let_def SplitN_def)
next
  case False
  with assms have "plainLine l" by (simp add: plainLine_def)
  from this assms(4) show ?thesis by (rule line_plain)
qed

lemma slog_line_other:
  assumes "\<not> startsBlock l" "\<not> ssidSource l" "\<not> stateSource l" "slog_undecided tgt st"
  shows "slog_isConnected_line tgt iface st l = Continue st"
proof (cases "HasPrefix (TrimSpace l) keywordInterfaceName")
  case True
  with assms(1) have c: "Contains (TrimSpace l) '':'' = False"
    by (simp add: startsBlock_def Let_def Contains_colon)
  from True have s: "HasPrefix (TrimSpace l) keywordSSID = False"
    and x: "HasPrefix (TrimSpace l) keywordState = False"
    by (cases "TrimSpace l"; simp add: keywordInterfaceName_def keywordState_def keywordSSID_def)+
  from assms(4) show ?thesis
    unfolding slog_isConnected_line_def Let_def c s x slog_undecided_def by auto
next
  case False
  with assms have "plainLine l" by (simp add: plainLine_def)
  from this assms(4) show ?thesis by (rule slog_line_plain)
qed

lemma source_exclusive: "ssidSource l \<Longrightarrow> \<not> stateSource l"
  using state_not_other_label(2) [of "TrimSpace l"]
  by (auto simp: ssidSource_def stateSource_def Let_def)

lemma source_not_start: "ssidSource l \<Longrightarrow> \<not> startsBlock l" "stateSource l \<Longrightarrow> \<not> startsBlock l"
  using SSID_not_other_label(1) [of "TrimSpace l"] state_not_other_label(1) [of "TrimSpace l"]
  by (auto simp: ssidSource_def stateSource_def startsBlock_def Let_def)

lemma isConnected_loop_block:
  assumes "tgt \<noteq> []"
    and "inTargetInterfaceBlock st" and "undecided tgt st" and "pending st block"
    and "\<forall>l \<in> set block. \<not> startsBlock l"
    and "length (filter ssidSource block) \<le> 1" and "length (filter stateSource block) \<le> 1"
  shows "fst (isConnected_loop tgt iface st (block @ rest)) =
           (if ssidAfter st block = tgt \<and> stateAfter st block \<noteq> []
            then stateAfter st block = keywordConnectedState
            else fst (isConnected_loop tgt iface
                        \<lparr>inTargetInterfaceBlock = True, blockParsedSSID = ssidAfter st block,
                         blockParsedState = stateAfter st block\<rparr> rest))"
  using assms(2-)
proof (induction block arbitrary: st)
  case Nil
  have nd: "\<not> (ssidAfter st [] = tgt \<and> stateAfter st [] \<noteq> [])"
    using Nil.prems(2) \<open>tgt \<noteq> []\<close> by (auto simp: ssidAfter_def stateAfter_def undecided_def)
  have eq: "\<lparr>inTargetInterfaceBlock = True, blockParsedSSID = ssidAfter st [],
              blockParsedState = stateAfter st []\<rparr> = st"
    using Nil.prems(1) by (simp add: ssidAfter_def stateAfter_def)
  show ?case unfolding eq using nd by auto
next
  case (Cons l block)
  from Cons.prems have inT: "inTargetInterfaceBlock st" and und: "undecided tgt st"
    and pend: "pending st (l # block)"
    and nsl: "\<not> startsBlock l" and nsb: "\<forall>l \<in> set block. \<not> startsBlock l"
    and c1: "length (filter ssidSource (l # block)) \<le> 1"
    and c2: "length (filter stateSource (l # block)) \<le> 1"
    by simp_all
  show ?case
  proof (cases "ssidSource l")
    case True
    then have ns: "\<not> stateSource l" by (rule source_exclusive)
    from True c1 have none: "filter ssidSource block = []" by simp
    from ns c2 have c2': "length (filter stateSource block) \<le> 1" by simp
    from True pend have e: "blockParsedSSID st = []" by (simp add: pending_def)
    let ?st2 = "st\<lparr>blockParsedSSID := valueOf l\<rparr>"
    have S: "ssidAfter st (l # block) = valueOf l" "ssidAfter ?st2 block = valueOf l"
      using True none by (simp_all add: ssidAfter_def)
    have T: "stateAfter st (l # block) = stateAfter st block"
      "stateAfter ?st2 block = stateAfter st block"
      using ns by (simp_all add: stateAfter_def split: list.splits)
    show ?thesis
    proof (cases "valueOf l = tgt \<and> blockParsedState st \<noteq> []")
      case decided: True
      with pend ns have "filter stateSource block = []" by (simp add: pending_def)
      then have "stateAfter st block = blockParsedState st" by (simp add: stateAfter_def)
      with decided True inT \<open>tgt \<noteq> []\<close> show ?thesis
        by (simp add: line_ssid Let_def S T)
    next
      case False
      then have step: "isConnected_line tgt iface st l = Continue ?st2"
        using True inT keywordConnectedState_nonempty
        by (auto simp: line_ssid Let_def)
      have p2: "pending ?st2 block"
        using pend ns none by (simp add: pending_def)
      have u2: "undecided tgt ?st2"
        using False by (auto simp: undecided_def)
      have i2: "inTargetInterfaceBlock ?st2" using inT by simp
      have ih: "fst (isConnected_loop tgt iface ?st2 (block @ rest)) =
           (if ssidAfter ?st2 block = tgt \<and> stateAfter ?st2 block \<noteq> []
            then stateAfter ?st2 block = keywordConnectedState
            else fst (isConnected_loop tgt iface
                        \<lparr>inTargetInterfaceBlock = True, blockParsedSSID = ssidAfter ?st2 block,
                         blockParsedState = stateAfter ?st2 block\<rparr> rest))"
        using Cons.IH [OF i2 u2 p2 nsb _ c2'] none by simp
      from step show ?thesis
        unfolding S(1) T(1) using ih [unfolded S(2) T(2)] by simp
    qed
  next
    case nss: False
    from nss c1 have c1': "length (filter ssidSource block) \<le> 1" by simp
    show ?thesis
    proof (cases "stateSource l")
      case True
      from True c2 have none: "filter stateSource block = []" by simp
      from True pend have e: "blockParsedState st = []" by (simp add: pending_def)
      let ?st2 = "st\<lparr>blockParsedState := valueOf l\<rparr>"
      have T: "stateAfter st (l # block) = valueOf l" "stateAfter ?st2 block = valueOf l"
        using True none by (simp_all add: stateAfter_def)
      have S: "ssidAfter st (l # block) = ssidAfter st block"
        "ssidAfter ?st2 block = ssidAfter st block"
        using nss by (simp_all add: ssidAfter_def split: list.splits)
      show ?thesis
      proof (cases "blockParsedSSID st = tgt \<and> valueOf l \<noteq> []")
        case decided: True
        with pend nss \<open>tgt \<noteq> []\<close> have "filter ssidSource block = []"
          by (auto simp: pending_def)
        then have "ssidAfter st block = blockParsedSSID st" by (simp add: ssidAfter_def)
        with decided True inT \<open>tgt \<noteq> []\<close> show ?thesis
          by (simp add: line_state Let_def S T)
      next
        case False
        then have step: "isConnected_line tgt iface st l = Continue ?st2"
          using True inT keywordConnectedState_nonempty
          by (auto simp: line_state Let_def)
        have p2: "pending ?st2 block"
          using pend nss none by (simp add: pending_def)
        have u2: "undecided tgt ?st2"
          using False by (auto simp: undecided_def)
        have i2: "inTargetInterfaceBlock ?st2" using inT by simp
        have ih: "fst (isConnected_loop tgt iface ?st2 (block @ rest)) =
             (if ssidAfter ?st2 block = tgt \<and> stateAfter ?st2 block \<noteq> []
              then stateAfter ?st2 block = keywordConnectedState
              else fst (isConnected_loop tgt iface
                          \<lparr>inTargetInterfaceBlock = True, blockParsedSSID = ssidAfter ?st2 block,
                           blockParsedState = stateAfter ?st2 block\<rparr> rest))"
          using Cons.IH [OF i2 u2 p2 nsb c1'] none by simp
        from step show ?thesis
          unfolding S(1) T(1) using ih [unfolded S(2) T(2)] by simp
      qed
    next
      case False
      from nsl nss False und have step: "isConnected_line tgt iface st l = Continue st"
        by (rule line_other)
      from False c2 have c2': "length (filter stateSource block) \<le> 1" by simp
      have p2: "pending st block" using pend nss False by (simp add: pending_def)
      have "ssidAfter st (l # block) = ssidAfter st block"
        "stateAfter st (l # block) = stateAfter st block"
        using nss False by (simp_all add: ssidAfter_def stateAfter_def)
      with Cons.IH [OF inT und p2 nsb c1' c2'] step show ?thesis by simp
    qed
  qed
qed

lemma slog_isConnected_loop_block:
  assumes "tgt \<noteq> []"
    and "inTargetInterfaceBlock st" and "slog_undecided tgt st" and "pending st block"
    and "\<forall>l \<in> set block. \<not> startsBlock l"
    and "length (filter ssidSource block) \<le> 1" and "length (filter stateSource block) \<le> 1"
  shows "fst (slog_isConnected_loop tgt iface st (block @ rest)) =
           (if ssidAfter st block = tgt \<and> stateAfter st block \<noteq> []
            then stateAfter st block = keywordConnectedState
            else fst (slog_isConnected_loop tgt iface
                        \<lparr>inTargetInterfaceBlock = True, blockParsedSSID = ssidAfter st block,
                         blockParsedState = stateAfter st block\<rparr> rest))"
  using assms(2-)
proof (induction block arbitrary: st)
  case Nil
  have nd: "\<not> (ssidAfter st [] = tgt \<and> stateAfter st [] \<noteq> [])"
    using Nil.prems(2) \<open>tgt \<noteq> []\<close> by (auto simp: ssidAfter_def stateAfter_def slog_undecided_def)
  have eq: "\<lparr>inTargetInterfaceBlock = True, blockParsedSSID = ssidAfter st [],
              blockParsedState = stateAfter st []\<rparr> = st"
    using Nil.prems(1) by (simp add: ssidAfter_def stateAfter_def)
  show ?case unfolding eq using nd by auto
next
  case (Cons l block)
  from Cons.prems have inT: "inTargetInterfaceBlock st" and und: "slog_undecided tgt st"
    and pend: "pending st (l # block)"
    and nsl: "\<not> startsBlock l" and nsb: "\<forall>l \<in> set block. \<not> startsBlock l"
    and c1: "length (filter ssidSource (l # block)) \<le> 1"
    and c2: "length (filter stateSource (l # block)) \<le> 1"
    by simp_all
  show ?case
  proof (cases "ssidSource l")
    case True
    then have ns: "\<not> stateSource l" by (rule source_exclusive)
    from True c1 have none: "filter ssidSource block = []" by simp
    from ns c2 have c2': "length (filter stateSource block) \<le> 1" by simp
    from True pend have e: "blockParsedSSID st = []" by (simp add: pending_def)
    let ?st2 = "st\<lparr>blockParsedSSID := valueOf l\<rparr>"
    have S: "ssidAfter st (l # block) = valueOf l" "ssidAfter ?st2 block = valueOf l"
      using True none by (simp_all add: ssidAfter_def)
    have T: "stateAfter st (l # block) = stateAfter st block"
      "stateAfter ?st2 block = stateAfter st block"
      using ns by (simp_all add: stateAfter_def split: list.splits)
    show ?thesis
    proof (cases "valueOf l = tgt \<and> blockParsedState st \<noteq> []")
      case decided: True
      with pend ns have "filter stateSource block = []" by (simp add: pending_def)
      then have "stateAfter st block = blockParsedState st" by (simp add: stateAfter_def)
      with decided True inT \<open>tgt \<noteq> []\<close> show ?thesis
        by (simp add: slog_line_ssid Let_def S T)
    next
      case False
      then have step: "slog_isConnected_line tgt iface st l = Continue ?st2"
        using True inT keywordConnectedState_nonempty
        by (auto simp: slog_line_ssid Let_def)
      have p2: "pending ?st2 block"
        using pend ns none by (simp add: pending_def)
      have u2: "slog_undecided tgt ?st2"
        using False by (auto simp: slog_undecided_def)
      have i2: "inTargetInterfaceBlock ?st2" using inT by simp
      have ih: "fst (slog_isConnected_loop tgt iface ?st2 (block @ rest)) =
           (if ssidAfter ?st2 block = tgt \<and> stateAfter ?st2 block \<noteq> []
            then stateAfter ?st2 block = keywordConnectedState
            else fst (slog_isConnected_loop tgt iface
                        \<lparr>inTargetInterfaceBlock = True, blockParsedSSID = ssidAfter ?st2 block,
                         blockParsedState = stateAfter ?st2 block\<rparr> rest))"
        using Cons.IH [OF i2 u2 p2 nsb _ c2'] none by simp
      from step show ?thesis
        unfolding S(1) T(1) using ih [unfolded S(2) T(2)] by simp
    qed
  next
    case nss: False
    from nss c1 have c1': "length (filter ssidSource block) \<le> 1" by simp
    show ?thesis
    proof (cases "stateSource l")
      case True
      from True c2 have none: "filter stateSource block = []" by simp
      from True pend have e: "blockParsedState st = []" by (simp add: pending_def)
      let ?st2 = "st\<lparr>blockParsedState := valueOf l\<rparr>"
      have T: "stateAfter st (l # block) = valueOf l" "stateAfter ?st2 block = valueOf l"
        using True none by (simp_all add: stateAfter_def)
      have S: "ssidAfter st (l # block) = ssidAfter st block"
        "ssidAfter ?st2 block = ssidAfter st block"
        using nss by (simp_all add: ssidAfter_def split: list.splits)
      show ?thesis
      proof (cases "blockParsedSSID st = tgt \<and> valueOf l \<noteq> []")
        case decided: True
        with pend nss \<open>tgt \<noteq> []\<close> have "filter ssidSource block = []"
          by (auto simp: pending_def)
        then have "ssidAfter st block = blockParsedSSID st" by (simp add: ssidAfter_def)
        with decided True inT \<open>tgt \<noteq> []\<close> show ?thesis
          by (simp add: slog_line_state Let_def S T)
      next
        case False
        then have step: "slog_isConnected_line tgt iface st l = Continue ?st2"
          using True inT keywordConnectedState_nonempty
          by (auto simp: slog_line_state Let_def)
        have p2: "pending ?st2 block"
          using pend nss none by (simp add: pending_def)
        have u2: "slog_undecided tgt ?st2"
          using False by (auto simp: slog_undecided_def)
        have i2: "inTargetInterfaceBlock ?st2" using inT by simp
        have ih: "fst (slog_isConnected_loop tgt iface ?st2 (block @ rest)) =
             (if ssidAfter ?st2 block = tgt \<and> stateAfter ?st2 block \<noteq> []
              then stateAfter ?st2 block = keywordConnectedState
              else fst (slog_isConnected_loop tgt iface
                          \<lparr>inTargetInterfaceBlock = True, blockParsedSSID = ssidAfter ?st2 block,
                           blockParsedState = stateAfter ?st2 block\<rparr> rest))"
          using Cons.IH [OF i2 u2 p2 nsb c1'] none by simp
        from step show ?thesis
          unfolding S(1) T(1) using ih [unfolded S(2) T(2)] by simp
      qed
    next
      case False
      from nsl nss False und have step: "slog_isConnected_line tgt iface st l = Continue st"
        by (rule slog_line_other)
      from False c2 have c2': "length (filter stateSource block) \<le> 1" by simp
      have p2: "pending st block" using pend nss False by (simp add: pending_def)
      have "ssidAfter st (l # block) = ssidAfter st block"
        "stateAfter st (l # block) = stateAfter st block"
        using nss False by (simp_all add: ssidAfter_def stateAfter_def)
      with Cons.IH [OF inT und p2 nsb c1' c2'] step show ?thesis by simp
    qed
  qed
qed

lemma line_closing:
  assumes "startsBlock l" and "\<not> opensTargetBlock iface l"
  shows "isConnected_line tgt iface st l = Continue (st\<lparr>inTargetInterfaceBlock := False\<rparr>)"
  using assms unfolding isConnected_line_def opensTargetBlock_def startsBlock_def Let_def
  by (simp add: SplitN_def)

lemma slog_line_closing:
  assumes "startsBlock l" and "\<not> opensTargetBlock iface l"
  shows "slog_isConnected_line tgt iface st l
           = Continue (st\<lparr>inTargetInterfaceBlock := False\<rparr>)"
  using assms unfolding slog_isConnected_line_def opensTargetBlock_def startsBlock_def Let_def
  by (simp add: SplitN_def Contains_colon)

lemma isConnected_loop_reads_block:
  assumes "tgt \<noteq> []" and valid: "validStatusOutput iface lines"
  shows "fst (isConnected_loop tgt iface pstate0 lines)
           = (blockSSID iface lines = tgt \<and> blockState iface lines = keywordConnectedState)"
proof (cases "dropWhile (\<lambda>l. \<not> opensTargetBlock iface l) lines")
  case Nil
  then have "\<forall>l \<in> set lines. \<not> opensTargetBlock iface l"
    by (simp add: dropWhile_eq_Nil_conv)
  then have "fst (isConnected_loop tgt iface pstate0 lines) = False"
    by (intro isConnected_loop_no_block) (simp_all add: pstate0_def)
  moreover have "blockSSID iface lines = []"
    unfolding blockSSID_def targetBlock_def Nil by simp
  ultimately show ?thesis using \<open>tgt \<noteq> []\<close> by auto
next
  case (Cons nl ls)
  let ?pre = "takeWhile (\<lambda>l. \<not> opensTargetBlock iface l) lines"
  let ?block = "takeWhile (\<lambda>l. \<not> startsBlock l) ls"
  let ?rest = "dropWhile (\<lambda>l. \<not> startsBlock l) ls"
  let ?st1 = "\<lparr>inTargetInterfaceBlock = True, blockParsedSSID = [], blockParsedState = []\<rparr>"
  let ?S = "firstValue ssidSource ?block" and ?T = "firstValue stateSource ?block"
  let ?st' = "\<lparr>inTargetInterfaceBlock = True, blockParsedSSID = ?S, blockParsedState = ?T\<rparr>"
  from Cons have lines: "lines = ?pre @ nl # ls" and nl: "opensTargetBlock iface nl"
    by (simp_all add: dropWhile_eq_Cons_conv)
  from valid Cons have c1: "length (filter ssidSource ?block) \<le> 1"
    and c2: "length (filter stateSource ?block) \<le> 1"
    and others: "\<forall>l \<in> set ?rest. \<not> opensTargetBlock iface l"
    by (simp_all add: validStatusOutput_def list_all_iff)
  have vals: "blockSSID iface lines = ?S" "blockState iface lines = ?T"
    using Cons by (simp_all add: blockSSID_def blockState_def targetBlock_def)
  have "isConnected_loop tgt iface pstate0 (?pre @ nl # ls) = isConnected_loop tgt iface pstate0 (nl # ls)"
    by (intro loop_skip_outside) (auto simp: pstate0_def dest: set_takeWhileD)
  also have "\<dots> = isConnected_loop tgt iface ?st1 ls"
    using nl by (simp add: line_opening)
  also have "\<dots> = isConnected_loop tgt iface ?st1 (?block @ ?rest)"
    by simp
  finally have run: "fst (isConnected_loop tgt iface pstate0 lines)
                       = fst (isConnected_loop tgt iface ?st1 (?block @ ?rest))"
    using lines by simp
  have after: "ssidAfter ?st1 ?block = ?S" "stateAfter ?st1 ?block = ?T"
    by (simp_all add: ssidAfter_def stateAfter_def firstValue_def split: list.splits)
  have nsb: "\<forall>l \<in> set ?block. \<not> startsBlock l"
    by (auto dest: set_takeWhileD)
  have und: "undecided tgt ?st1"
    using \<open>tgt \<noteq> []\<close> by (simp add: undecided_def)
  have pend: "pending ?st1 ?block"
    by (simp add: pending_def)
  have inT: "inTargetInterfaceBlock ?st1"
    by simp
  have block: "fst (isConnected_loop tgt iface ?st1 (?block @ ?rest)) =
           (if ?S = tgt \<and> ?T \<noteq> [] then ?T = keywordConnectedState
            else fst (isConnected_loop tgt iface ?st' ?rest))"
    using isConnected_loop_block [OF \<open>tgt \<noteq> []\<close> inT und pend nsb c1 c2, of iface ?rest]
    unfolding after .
  have rest: "fst (isConnected_loop tgt iface ?st' ?rest) = False"
  proof (cases ?rest)
    case Nil
    show ?thesis unfolding Nil by simp
  next
    case (Cons r rs)
    then have sb: "startsBlock r" by (simp add: dropWhile_eq_Cons_conv)
    from others Cons have no: "\<not> opensTargetBlock iface r"
      and rs: "\<forall>l \<in> set rs. \<not> opensTargetBlock iface l"
      by simp_all
    from sb no have "isConnected_line tgt iface ?st' r
                       = Continue (?st'\<lparr>inTargetInterfaceBlock := False\<rparr>)"
      by (rule line_closing)
    moreover have "fst (isConnected_loop tgt iface (?st'\<lparr>inTargetInterfaceBlock := False\<rparr>) rs)
                     = False"
      using rs by (intro isConnected_loop_no_block) simp_all
    ultimately show ?thesis unfolding Cons by simp
  qed
  show ?thesis
    unfolding run block rest vals using keywordConnectedState_nonempty by auto
qed

lemma slog_isConnected_loop_reads_block:
  assumes "tgt \<noteq> []" and valid: "validStatusOutput iface lines"
  shows "fst (slog_isConnected_loop tgt iface pstate0 lines)
           = (blockSSID iface lines = tgt \<and> blockState iface lines = keywordConnectedState)"
proof (cases "dropWhile (\<lambda>l. \<not> opensTargetBlock iface l) lines")
  case Nil
  then have "\<forall>l \<in> set lines. \<not> opensTargetBlock iface l"
    by (simp add: dropWhile_eq_Nil_conv)
  then have "fst (slog_isConnected_loop tgt iface pstate0 lines) = False"
    by (intro slog_loop_no_block) (simp_all add: pstate0_def)
  moreover have "blockSSID iface lines = []"
    unfolding blockSSID_def targetBlock_def Nil by simp
  ultimately show ?thesis using \<open>tgt \<noteq> []\<close> by auto
next
  case (Cons nl ls)
  let ?pre = "takeWhile (\<lambda>l. \<not> opensTargetBlock iface l) lines"
  let ?block = "takeWhile (\<lambda>l. \<not> startsBlock l) ls"
  let ?rest = "dropWhile (\<lambda>l. \<not> startsBlock l) ls"
  let ?st1 = "\<lparr>inTargetInterfaceBlock = True, blockParsedSSID = [], blockParsedState = []\<rparr>"
  let ?S = "firstValue ssidSource ?block" and ?T = "firstValue stateSource ?block"
  let ?st' = "\<lparr>inTargetInterfaceBlock = True, blockParsedSSID = ?S, blockParsedState = ?T\<rparr>"
  from Cons have lines: "lines = ?pre @ nl # ls" and nl: "opensTargetBlock iface nl"
    by (simp_all add: dropWhile_eq_Cons_conv)
  from valid Cons have c1: "length (filter ssidSource ?block) \<le> 1"
    and c2: "length (filter stateSource ?block) \<le> 1"
    and others: "\<forall>l \<in> set ?rest. \<not> opensTargetBlock iface l"
    by (simp_all add: validStatusOutput_def list_all_iff)
  have vals: "blockSSID iface lines = ?S" "blockState iface lines = ?T"
    using Cons by (simp_all add: blockSSID_def blockState_def targetBlock_def)
  have "slog_isConnected_loop tgt iface pstate0 (?pre @ nl # ls) = slog_isConnected_loop tgt iface pstate0 (nl # ls)"
    by (intro slog_loop_skip_outside) (auto simp: pstate0_def dest: set_takeWhileD)
  also have "\<dots> = slog_isConnected_loop tgt iface ?st1 ls"
    using nl by (simp add: line_opening)
  also have "\<dots> = slog_isConnected_loop tgt iface ?st1 (?block @ ?rest)"
    by simp
  finally have run: "fst (slog_isConnected_loop tgt iface pstate0 lines)
                       = fst (slog_isConnected_loop tgt iface ?st1 (?block @ ?rest))"
    using lines by simp
  have after: "ssidAfter ?st1 ?block = ?S" "stateAfter ?st1 ?block = ?T"
    by (simp_all add: ssidAfter_def stateAfter_def firstValue_def split: list.splits)
  have nsb: "\<forall>l \<in> set ?block. \<not> startsBlock l"
    by (auto dest: set_takeWhileD)
  have und: "slog_undecided tgt ?st1"
    using \<open>tgt \<noteq> []\<close> by (simp add: slog_undecided_def)
  have pend: "pending ?st1 ?block"
    by (simp add: pending_def)
  have inT: "inTargetInterfaceBlock ?st1"
    by simp
  have block: "fst (slog_isConnected_loop tgt iface ?st1 (?block @ ?rest)) =
           (if ?S = tgt \<and> ?T \<noteq> [] then ?T = keywordConnectedState
            else fst (slog_isConnected_loop tgt iface ?st' ?rest))"
    using slog_isConnected_loop_block [OF \<open>tgt \<noteq> []\<close> inT und pend nsb c1 c2, of iface ?rest]
    unfolding after .
  have rest: "fst (slog_isConnected_loop tgt iface ?st' ?rest) = False"
  proof (cases ?rest)
    case Nil
    show ?thesis unfolding Nil by simp
  next
    case (Cons r rs)
    then have sb: "startsBlock r" by (simp add: dropWhile_eq_Cons_conv)
    from others Cons have no: "\<not> opensTargetBlock iface r"
      and rs: "\<forall>l \<in> set rs. \<not> opensTargetBlock iface l"
      by simp_all
    from sb no have "slog_isConnected_line tgt iface ?st' r
                       = Continue (?st'\<lparr>inTargetInterfaceBlock := False\<rparr>)"
      by (rule slog_line_closing)
    moreover have "fst (slog_isConnected_loop tgt iface (?st'\<lparr>inTargetInterfaceBlock := False\<rparr>) rs)
                     = False"
      using rs by (intro slog_loop_no_block) simp_all
    ultimately show ?thesis unfolding Cons by simp
  qed
  show ?thesis
    unfolding run block rest vals using keywordConnectedState_nonempty by auto
qed

subsection \<open>Lines that the parser passes over\<close>

lemma BSSID_not_other_label:
  assumes "HasPrefix t ''BSSID'' \<or> HasPrefix t ''AP BSSID''"
  shows "\<not> HasPrefix t keywordInterfaceName" and "\<not> HasPrefix t keywordState"
    and "\<not> HasPrefix t ''SSID''"
  using assms by (cases t; auto simp: keywordInterfaceName_def keywordState_def)+

lemma accessPointLine_plain:
  assumes "accessPointLine l"
  shows "plainLine l"
proof -
  let ?t = "TrimSpace l"
  from assms consider "HasPrefix ?t ''SSID''" "Contains ?t ''AP BSSID''"
    | "HasPrefix ?t ''BSSID'' \<or> HasPrefix ?t ''AP BSSID''"
    by (auto simp: accessPointLine_def Let_def)
  then show ?thesis
  proof cases
    case 1
    with SSID_not_other_label [OF 1(1)] show ?thesis
      by (simp add: plainLine_def ssidSource_def stateSource_def Let_def)
  next
    case 2
    with BSSID_not_other_label [OF 2] show ?thesis
      by (simp add: plainLine_def ssidSource_def stateSource_def Let_def)
  qed
qed

lemma line_plain_variables:
  assumes "plainLine l"
  shows "stateOf (isConnected_line tgt iface st l) = st"
proof (cases "CHR '':'' \<in> set (TrimSpace l)")
  case True
  let ?t = "TrimSpace l"
  from assms True have n: "HasPrefix ?t keywordInterfaceName = False"
    and s: "(HasPrefix ?t ''SSID'' \<and> \<not> Contains ?t ''AP BSSID'') = False"
    and x: "HasPrefix ?t keywordState = False"
    by (simp_all add: plainLine_def ssidSource_def stateSource_def Let_def)
  show ?thesis unfolding isConnected_line_def Let_def n s x by simp
next
  case False
  let ?t = "TrimSpace l"
  from assms have n: "HasPrefix ?t keywordInterfaceName = False"
    by (simp add: plainLine_def)
  from False have sp: "SplitN ?t = [?t]" by (simp add: SplitN_cases)
  show ?thesis unfolding isConnected_line_def Let_def n sp by simp
qed

lemma slog_line_plain_variables:
  assumes "plainLine l"
  shows "stateOf (slog_isConnected_line tgt iface st l) = st"
proof -
  let ?t = "TrimSpace l"
  from assms have n: "HasPrefix ?t keywordInterfaceName = False"
    and s: "(HasPrefix ?t keywordSSID \<and> \<not> Contains ?t ''AP BSSID'' \<and> Contains ?t '':'') = False"
    and x: "(HasPrefix ?t keywordState \<and> Contains ?t '':'') = False"
    by (simp_all add: plainLine_def ssidSource_def stateSource_def Let_def Contains_colon
        keywordSSID_def)
  show ?thesis unfolding slog_isConnected_line_def Let_def n s x by simp
qed

lemma loop_drop_plain:
  assumes "plainLine l" and "undecided tgt st"
  shows "isConnected_loop tgt iface st (xs @ l # ys) = isConnected_loop tgt iface st (xs @ ys)"
  using assms(2)
proof (induction xs arbitrary: st)
  case Nil
  with assms(1) show ?case by (simp add: line_plain)
next
  case (Cons x xs)
  then show ?case
    by (cases "isConnected_line tgt iface st x") (auto dest: isConnected_line_Continue)
qed

lemma slog_loop_drop_plain:
  assumes "plainLine l" and "slog_undecided tgt st"
  shows "slog_isConnected_loop tgt iface st (xs @ l # ys)
           = slog_isConnected_loop tgt iface st (xs @ ys)"
  using assms(2)
proof (induction xs arbitrary: st)
  case Nil
  with assms(1) show ?case by (simp add: slog_line_plain)
next
  case (Cons x xs)
  then show ?case
    by (cases "slog_isConnected_line tgt iface st x") (auto dest: slog_line_Continue)
qed

section \<open>The visibility scanner and the poll loop: their loops\<close>

lemma isNetworkAvailable_loop_iff:
  "isNetworkAvailable_loop tgt ls \<longleftrightarrow> (\<exists>l \<in> set ls. listsSSID tgt l)"
  by (induction ls) (auto simp: listsSSID_def Let_def split: list.splits)

lemma slog_isNetworkAvailable_loop_iff:
  "slog_isNetworkAvailable_loop tgt ls \<longleftrightarrow> (\<exists>l \<in> set ls. listsSSID tgt l)"
  by (induction ls) (auto simp: listsSSID_def Let_def split: list.splits)

lemma main_loop_concat:
  "main_loop iface ticks = concat (map (\<lambda>w. TickFired # main_tick w iface) ticks)"
  by (induction ticks) simp_all

lemma part000_loop_concat:
  "part000_loop iface ticks = concat (map (\<lambda>w. TickFired # part000_tick w iface) ticks)"
  by (induction ticks) simp_all

lemma slog_loop_concat:
  "slog_loop tgt iface ticks
     = concat (map (\<lambda>w. TickFired # performCheckAndConnect w tgt iface) ticks)"
  by (induction ticks) simp_all

section \<open>Evaluating the samples\<close>

lemmas go_strings =
  TrimSpace_def TrimRightFunc_def TrimLeftFunc.simps lastIndexFunc.simps
  DecodeRuneInString_def DecodeLastRuneInString_def IsSpace_def RuneStart_def RuneError_def
  Let_def

lemmas labels =
  keywordInterfaceName_def keywordState_def keywordConnectedState_def keywordSSID_def

lemma example_trims:
  "TrimSpace ('' '' @ keywordInterfaceName @ '' : WLAN'') = keywordInterfaceName @ '' : WLAN''"
  "TrimSpace ('' '' @ keywordState @ '' : '' @ keywordConnectedState @ [CHR 0x0D])
     = keywordState @ '' : '' @ keywordConnectedState"
  "TrimSpace ('' '' @ keywordConnectedState) = keywordConnectedState"
  "TrimSpace '' WLAN'' = ''WLAN''"
  "TrimSpace '' SSID : home_5G'' = ''SSID : home_5G''"
  "TrimSpace '' home_5G'' = ''home_5G''"
  "TrimSpace '' AP BSSID : 00:11'' = ''AP BSSID : 00:11''"
  "TrimSpace '' 00:11'' = ''00:11''"
  "TrimSpace '' GUID : 1234'' = ''GUID : 1234''"
  "TrimSpace '' 1234'' = ''1234''"
  by (simp_all add: go_strings labels)

lemma example_lines:
  "Split example_status =
     ['' '' @ keywordInterfaceName @ '' : WLAN'',
      '' '' @ keywordState @ '' : '' @ keywordConnectedState @ [CHR 0x0D],
      '' SSID : home_5G'', '' AP BSSID : 00:11'']"
  "Split example_bare_block = ['' '' @ keywordInterfaceName @ '' : WLAN'', '' GUID : 1234'']"
  by (simp_all add: example_status_def example_bare_block_def LF_def labels)

lemmas example_eval =
  example_lines [unfolded labels, simplified] example_trims [unfolded labels, simplified]
  labels SplitN_def pstate0_def isConnected_line_def slog_isConnected_line_def Let_def

lemma example_status_run:
  "isConnected_loop ''home_5G'' ''WLAN'' pstate0 (Split example_status)
     = (True, \<lparr>inTargetInterfaceBlock = True, blockParsedSSID = ''home_5G'',
               blockParsedState = keywordConnectedState\<rparr>)"
  "slog_isConnected_loop ''home_5G'' ''WLAN'' pstate0 (Split example_status)
     = (True, \<lparr>inTargetInterfaceBlock = True, blockParsedSSID = ''home_5G'',
               blockParsedState = keywordConnectedState\<rparr>)"
  by (simp_all add: example_eval)

lemma example_status_other_run:
  "isConnected_loop ''cafe'' ''WLAN'' pstate0 (Split example_status)
     = (False, \<lparr>inTargetInterfaceBlock = True, blockParsedSSID = ''home_5G'',
                blockParsedState = keywordConnectedState\<rparr>)"
  "slog_isConnected_loop ''cafe'' ''WLAN'' pstate0 (Split example_status)
     = (False, \<lparr>inTargetInterfaceBlock = True, blockParsedSSID = ''home_5G'',
                blockParsedState = keywordConnectedState\<rparr>)"
  by (simp_all add: example_eval)

lemma example_bare_block_run:
  "isConnected_loop ''home_5G'' ''WLAN'' pstate0 (Split example_bare_block)
     = (False, \<lparr>inTargetInterfaceBlock = True, blockParsedSSID = [],
                blockParsedState = []\<rparr>)"
  "slog_isConnected_loop ''home_5G'' ''WLAN'' pstate0 (Split example_bare_block)
     = (False, \<lparr>inTargetInterfaceBlock = True, blockParsedSSID = [],
                blockParsedState = []\<rparr>)"
  by (simp_all add: example_eval)

lemma example_status_no_WiFi_block:
  "\<forall>l \<in> set (Split example_status). \<not> opensTargetBlock ''Wi-Fi'' l"
  by (simp add: opensTargetBlock_def example_eval)

lemmas example_runs = example_status_run example_status_other_run example_bare_block_run

lemma example_marked_trim:
  "TrimSpace example_marked = ''SSID AP BSSID : home_5G''"
  by (simp add: example_marked_def go_strings)

lemma example_status_prefix_run:
  "isConnected_loop ''home_5G'' ''WLAN'' pstate0 (take 2 (Split example_status))
     = (False, \<lparr>inTargetInterfaceBlock = True, blockParsedSSID = [],
                blockParsedState = keywordConnectedState\<rparr>)"
  "slog_isConnected_loop ''home_5G'' ''WLAN'' pstate0 (take 2 (Split example_status))
     = (False, \<lparr>inTargetInterfaceBlock = True, blockParsedSSID = [],
                blockParsedState = keywordConnectedState\<rparr>)"
  by (simp_all add: example_eval)

lemma example_english_eval:
  "Split example_english = ['' Name : Wi-Fi'', '' State : connected'', '' SSID : home_5G'']"
  "TrimSpace '' Name : Wi-Fi'' = ''Name : Wi-Fi''"
  "TrimSpace '' Wi-Fi'' = ''Wi-Fi''"
  "TrimSpace '' State : connected'' = ''State : connected''"
  "TrimSpace '' connected'' = ''connected''"
  by (simp_all add: example_english_def LF_def go_strings)

lemma example_english_facts:
  "list_all (\<lambda>l. \<not> HasPrefix (TrimSpace l) keywordInterfaceName) (Split example_english)"
  "list_ex (namesInterface ''Name'') (Split example_english)"
  "getWlanInterface_loop [] (Split example_english) = ''Wi-Fi''"
  "slog_getWlanInterface_loop (Split example_english) = Some ''Wi-Fi''"
  by (simp_all add: example_english_eval example_eval namesInterface_def)

lemma example_scan_eval:
  "Split example_scan = [''SSID 1 : home_5G'', '' Network type : Infrastructure'', ''SSID 2 : cafe'']"
  "TrimSpace ''SSID 1 : home_5G'' = ''SSID 1 : home_5G''"
  "TrimSpace '' Network type : Infrastructure'' = ''Network type : Infrastructure''"
  "TrimSpace ''SSID 2 : cafe'' = ''SSID 2 : cafe''"
  "TrimSpace '' cafe'' = ''cafe''"
  by (simp_all add: example_scan_def LF_def go_strings)

lemma example_scan_facts:
  "list_ex (listsSSID ''cafe'') (Split example_scan)"
  "\<not> list_ex (listsSSID ''office'') (Split example_scan)"
  "listsSSID ''home_5G'' ''SSID 1 : home_5G''"
  by (simp_all add: example_scan_eval example_eval listsSSID_def)

lemma fails_with_phrases:
  "Contains (''The request failed: '' @ noNetworksVisible_en @ ''.'') noNetworksVisible_en"
  "\<not> Contains (''The request failed: '' @ noNetworksVisible_en @ ''.'') noNetworksVisible_zh"
  "Contains (noNetworksVisible_zh @ [CHR 0x0D, CHR 0x0A]) noNetworksVisible_zh"
  "\<not> Contains ''Access is denied.'' noNetworksVisible_zh"
  "\<not> Contains ''Access is denied.'' noNetworksVisible_en"
  by (simp_all add: noNetworksVisible_zh_def noNetworksVisible_en_def)

lemma example_bare_block_qaz_run:
  "isConnected_loop targetSSID ''WLAN'' pstate0 (Split example_bare_block)
     = (False, \<lparr>inTargetInterfaceBlock = True, blockParsedSSID = [],
                blockParsedState = []\<rparr>)"
  by (simp add: example_eval targetSSID_def)

lemma example_authenticating_eval:
  "Split example_authenticating =
     ['' '' @ keywordInterfaceName @ '' : WLAN'', '' '' @ keywordState @ '' : authenticating'',
      '' SSID : home_5G'']"
  "TrimSpace ('' '' @ keywordState @ '' : authenticating'') = keywordState @ '' : authenticating''"
  "TrimSpace '' authenticating'' = ''authenticating''"
  by (simp_all add: example_authenticating_def LF_def go_strings labels)

lemmas block_eval =
  validStatusOutput_def blockSSID_def blockState_def targetBlock_def firstValue_def
  opensTargetBlock_def startsBlock_def ssidSource_def stateSource_def valueOf_def
  example_authenticating_eval [unfolded labels, simplified] example_eval

lemma example_status_block:
  "validStatusOutput ''WLAN'' (Split example_status)"
  "blockSSID ''WLAN'' (Split example_status) = ''home_5G''"
  "blockState ''WLAN'' (Split example_status) = keywordConnectedState"
  by (simp_all add: block_eval)

lemma example_authenticating_block:
  "validStatusOutput ''WLAN'' (Split example_authenticating)"
  "blockSSID ''WLAN'' (Split example_authenticating) = ''home_5G''"
  "blockState ''WLAN'' (Split example_authenticating) = ''authenticating''"
  by (simp_all add: block_eval)

lemma example_slash_eval:
  "TrimSpace example_slash = ''SSID/BSSID : home_5G''"
  "TrimSpace example_bssid = ''BSSID : 00:11:22:33:44:55''"
  "Split example_slash_status =
     ['' '' @ keywordInterfaceName @ '' : WLAN'',
      '' '' @ keywordState @ '' : '' @ keywordConnectedState, example_slash]"
  "TrimSpace ('' '' @ keywordState @ '' : '' @ keywordConnectedState)
     = keywordState @ '' : '' @ keywordConnectedState"
  "TrimSpace ('' '' @ keywordConnectedState) = keywordConnectedState"
  by (simp_all add: example_slash_status_def example_slash_def example_bssid_def LF_def
      go_strings labels)

lemma example_slash_run:
  "isConnected_loop ''home_5G'' ''WLAN'' pstate0 (Split example_slash_status)
     = (True, \<lparr>inTargetInterfaceBlock = True, blockParsedSSID = ''home_5G'',
               blockParsedState = keywordConnectedState\<rparr>)"
  "slog_isConnected_loop ''home_5G'' ''WLAN'' pstate0 (Split example_slash_status)
     = (True, \<lparr>inTargetInterfaceBlock = True, blockParsedSSID = ''home_5G'',
               blockParsedState = keywordConnectedState\<rparr>)"
  by (simp_all add: example_slash_eval [unfolded labels, simplified] example_eval
      isConnected_line_def slog_isConnected_line_def pstate0_def SplitN_def)

text \<open>With the empty target, which no run passes, the loop of \<open>main.go\<close> decides at the
  state line, before an SSID is read; hence the statements on the block take the target to
  be non-empty.\<close>

lemma example_status_empty_target:
  "isConnected True (answers example_status) [] ''WLAN'' = Inr True"
  "blockSSID ''WLAN'' (Split example_status) \<noteq> []"
  by (simp_all add: isConnected_def answers_def block_eval)

section \<open>The claims\<close>

subsection \<open>The status parser\<close>

text \<open>
  C1. When the status command succeeds, on every valid status report and for every
  non-empty target name, \<open>isConnected\<close> returns \<open>(true, nil)\<close> exactly when the block of
  the requested interface gives the target as its SSID and the connected token as its
  state, and \<open>(false, nil)\<close> otherwise: so it returns \<open>(false, nil)\<close> when the SSID of the
  block is the target and its state line gives another text, and when the report has no
  block for the interface. The block, its SSID and its state are read off the text of the
  report (\<open>targetBlock\<close>, \<open>blockSSID\<close>, \<open>blockState\<close>), not off the variables of the loop.
  This holds for \<open>isConnected\<close> of \<open>main.go\<close> (and of the earlier program, which has the
  same function) and for \<open>isConnected\<close> of the slog program. The target is never empty
  in a run: \<open>main.go\<close> passes its constant \<open>targetSSID\<close>, and \<open>main\<close> of the slog program
  exits when \<open>-ssid\<close> is empty. A valid report (\<open>validStatusOutput\<close>) gives at most one
  SSID line and one state line in the block and names the interface in one block only.
\<close>

theorem isConnected_reads_the_block:
  "(runErr (w None showInterfaces) = None \<and> tgt \<noteq> []
      \<and> validStatusOutput iface (Split (outBuf (w None showInterfaces))) \<longrightarrow>
      isConnected True w tgt iface =
        Inr (blockSSID iface (Split (outBuf (w None showInterfaces))) = tgt
             \<and> blockState iface (Split (outBuf (w None showInterfaces)))
                 = keywordConnectedState))
   \<and> (\<not> deadlineExceeded (w (Some commandTimeout) showInterfaces)
        \<and> runErr (w (Some commandTimeout) showInterfaces) = None \<and> tgt \<noteq> []
        \<and> validStatusOutput iface (Split (outBuf (w (Some commandTimeout) showInterfaces)))
        \<longrightarrow>
      slog_isConnected w tgt iface =
        Inr (blockSSID iface (Split (outBuf (w (Some commandTimeout) showInterfaces))) = tgt
             \<and> blockState iface (Split (outBuf (w (Some commandTimeout) showInterfaces)))
                 = keywordConnectedState))"
proof (intro conjI impI)
  assume a: "runErr (w None showInterfaces) = None \<and> tgt \<noteq> []
      \<and> validStatusOutput iface (Split (outBuf (w None showInterfaces)))"
  then have "fst (isConnected_loop tgt iface pstate0 (Split (outBuf (w None showInterfaces))))
      = (blockSSID iface (Split (outBuf (w None showInterfaces))) = tgt
         \<and> blockState iface (Split (outBuf (w None showInterfaces))) = keywordConnectedState)"
    by (intro isConnected_loop_reads_block) simp_all
  with a show "isConnected True w tgt iface =
        Inr (blockSSID iface (Split (outBuf (w None showInterfaces))) = tgt
             \<and> blockState iface (Split (outBuf (w None showInterfaces)))
                 = keywordConnectedState)"
    by (simp add: isConnected_def Let_def)
next
  let ?r = "w (Some commandTimeout) showInterfaces"
  assume a: "\<not> deadlineExceeded ?r \<and> runErr ?r = None \<and> tgt \<noteq> []
        \<and> validStatusOutput iface (Split (outBuf ?r))"
  then have "fst (slog_isConnected_loop tgt iface pstate0 (Split (outBuf ?r)))
      = (blockSSID iface (Split (outBuf ?r)) = tgt
         \<and> blockState iface (Split (outBuf ?r)) = keywordConnectedState)"
    by (intro slog_isConnected_loop_reads_block) simp_all
  with a show "slog_isConnected w tgt iface =
        Inr (blockSSID iface (Split (outBuf ?r)) = tgt
             \<and> blockState iface (Split (outBuf ?r)) = keywordConnectedState)"
    by (simp add: slog_isConnected_def runNetshCommand_ok)
qed

theorem isConnected_reads_the_block_witness:
  "runErr (answers example_status None showInterfaces) = None
   \<and> \<not> deadlineExceeded (answers example_status (Some commandTimeout) showInterfaces)
   \<and> runErr (answers example_status (Some commandTimeout) showInterfaces) = None
   \<and> ''home_5G'' \<noteq> []
   \<and> validStatusOutput ''WLAN'' (Split (outBuf (answers example_status None showInterfaces)))
   \<and> validStatusOutput ''WLAN''
        (Split (outBuf (answers example_authenticating None showInterfaces)))
   \<and> isConnected True (answers example_status) ''home_5G'' ''WLAN'' = Inr True
   \<and> slog_isConnected (answers example_status) ''home_5G'' ''WLAN'' = Inr True
   \<and> isConnected True (answers example_status) ''cafe'' ''WLAN'' = Inr False
   \<and> slog_isConnected (answers example_status) ''cafe'' ''WLAN'' = Inr False
   \<and> isConnected True (answers example_authenticating) ''home_5G'' ''WLAN'' = Inr False
   \<and> slog_isConnected (answers example_authenticating) ''home_5G'' ''WLAN'' = Inr False"
  using isConnected_reads_the_block [of "answers example_status" "''home_5G''" "''WLAN''"]
    isConnected_reads_the_block [of "answers example_status" "''cafe''" "''WLAN''"]
    isConnected_reads_the_block [of "answers example_authenticating" "''home_5G''" "''WLAN''"]
    example_status_block example_authenticating_block
  by (simp add: answers_def keywordConnectedState_def)

text \<open>
  C4. When the status command succeeds, \<open>isConnected\<close> returns no error, whatever the
  output text; when no line opens the block of the requested interface, or when neither
  an SSID nor a state has been parsed from it, the result is \<open>(false, nil)\<close>.
\<close>

theorem isConnected_parsing_never_fails:
  "(runErr (w None showInterfaces) = None \<longrightarrow>
      (\<exists>b. isConnected True w tgt iface = Inr b)
      \<and> ((\<forall>l \<in> set (Split (outBuf (w None showInterfaces))). \<not> opensTargetBlock iface l) \<longrightarrow>
           isConnected True w tgt iface = Inr False)
      \<and> (blockParsedSSID (parsedBlock tgt iface (outBuf (w None showInterfaces))) = []
           \<and> blockParsedState (parsedBlock tgt iface (outBuf (w None showInterfaces))) = [] \<longrightarrow>
           isConnected True w tgt iface = Inr False))
   \<and> (\<not> deadlineExceeded (w (Some commandTimeout) showInterfaces)
        \<and> runErr (w (Some commandTimeout) showInterfaces) = None \<longrightarrow>
      (\<exists>b. slog_isConnected w tgt iface = Inr b)
      \<and> ((\<forall>l \<in> set (Split (outBuf (w (Some commandTimeout) showInterfaces))).
              \<not> opensTargetBlock iface l) \<longrightarrow>
           slog_isConnected w tgt iface = Inr False)
      \<and> (blockParsedSSID
             (slog_parsedBlock tgt iface (outBuf (w (Some commandTimeout) showInterfaces))) = []
           \<and> blockParsedState
               (slog_parsedBlock tgt iface (outBuf (w (Some commandTimeout) showInterfaces))) = []
           \<longrightarrow> slog_isConnected w tgt iface = Inr False))"
proof (intro conjI impI)
  assume ok: "runErr (w None showInterfaces) = None"
  let ?out = "outBuf (w None showInterfaces)"
  have eq: "isConnected True w tgt iface = Inr (fst (isConnected_loop tgt iface pstate0 (Split ?out)))"
    using ok by (simp add: isConnected_def Let_def)
  then show "\<exists>b. isConnected True w tgt iface = Inr b" by blast
  {
    assume "\<forall>l \<in> set (Split ?out). \<not> opensTargetBlock iface l"
    then have "fst (isConnected_loop tgt iface pstate0 (Split ?out)) = False"
      by (intro isConnected_loop_no_block) (simp_all add: pstate0_def)
    with eq show "isConnected True w tgt iface = Inr False" by simp
  }
  {
    assume e: "blockParsedSSID (parsedBlock tgt iface ?out) = []
                \<and> blockParsedState (parsedBlock tgt iface ?out) = []"
    have "fst (isConnected_loop tgt iface pstate0 (Split ?out)) = False"
    proof (rule ccontr)
      assume "fst (isConnected_loop tgt iface pstate0 (Split ?out)) \<noteq> False"
      then have "isConnected_loop tgt iface pstate0 (Split ?out)
                   = (True, parsedBlock tgt iface ?out)"
        by (simp add: parsedBlock_def prod_eq_iff)
      from isConnected_loop_true_state [OF this] e keywordConnectedState_nonempty
      show False by simp
    qed
    with eq show "isConnected True w tgt iface = Inr False" by simp
  }
next
  let ?r = "w (Some commandTimeout) showInterfaces"
  let ?out = "outBuf ?r"
  assume ok: "\<not> deadlineExceeded ?r \<and> runErr ?r = None"
  then have eq: "slog_isConnected w tgt iface
                   = Inr (fst (slog_isConnected_loop tgt iface pstate0 (Split ?out)))"
    by (simp add: slog_isConnected_def runNetshCommand_ok)
  then show "\<exists>b. slog_isConnected w tgt iface = Inr b" by blast
  {
    assume "\<forall>l \<in> set (Split ?out). \<not> opensTargetBlock iface l"
    then have "fst (slog_isConnected_loop tgt iface pstate0 (Split ?out)) = False"
      by (intro slog_loop_no_block) (simp_all add: pstate0_def)
    with eq show "slog_isConnected w tgt iface = Inr False" by simp
  }
  {
    assume e: "blockParsedSSID (slog_parsedBlock tgt iface ?out) = []
                \<and> blockParsedState (slog_parsedBlock tgt iface ?out) = []"
    have "fst (slog_isConnected_loop tgt iface pstate0 (Split ?out)) = False"
    proof (rule ccontr)
      assume "fst (slog_isConnected_loop tgt iface pstate0 (Split ?out)) \<noteq> False"
      then have "slog_isConnected_loop tgt iface pstate0 (Split ?out)
                   = (True, slog_parsedBlock tgt iface ?out)"
        by (simp add: slog_parsedBlock_def prod_eq_iff)
      from slog_loop_true_state [OF this] e keywordConnectedState_nonempty
      show False by simp
    qed
    with eq show "slog_isConnected w tgt iface = Inr False" by simp
  }
qed

theorem isConnected_parsing_never_fails_witness:
  "runErr (answers example_status None showInterfaces) = None
   \<and> \<not> deadlineExceeded (answers example_status (Some commandTimeout) showInterfaces)
   \<and> runErr (answers example_status (Some commandTimeout) showInterfaces) = None
   \<and> list_all (\<lambda>l. \<not> opensTargetBlock ''Wi-Fi'' l)
         (Split (outBuf (answers example_status None showInterfaces)))
   \<and> isConnected True (answers example_status) ''home_5G'' ''Wi-Fi'' = Inr False
   \<and> slog_isConnected (answers example_status) ''home_5G'' ''Wi-Fi'' = Inr False
   \<and> blockParsedSSID (parsedBlock ''home_5G'' ''WLAN'' example_bare_block) = []
   \<and> blockParsedState (parsedBlock ''home_5G'' ''WLAN'' example_bare_block) = []
   \<and> isConnected True (answers example_bare_block) ''home_5G'' ''WLAN'' = Inr False
   \<and> slog_isConnected (answers example_bare_block) ''home_5G'' ''WLAN'' = Inr False"
  using isConnected_parsing_never_fails [of "answers example_status" "''home_5G''" "''Wi-Fi''"]
    isConnected_parsing_never_fails [of "answers example_bare_block" "''home_5G''" "''WLAN''"]
    example_status_no_WiFi_block
  by (simp add: answers_def parsedBlock_def slog_parsedBlock_def example_runs list_all_iff)

text \<open>
  C3, as stated with the marker \<open>BSSID\<close>, fails: the parsers test for the text
  \<open>AP BSSID\<close>, so a line that starts with the label \<open>SSID\<close> and contains \<open>BSSID\<close> without
  \<open>AP\<close> before it is an SSID line for them. On a report whose block gives the connected
  state and then the line \<open>SSID/BSSID : home_5G\<close>, both take \<open>home_5G\<close> as the SSID of
  the block and answer connected.
\<close>

theorem SSID_line_with_bare_BSSID_is_taken:
  "HasPrefix (TrimSpace example_slash) ''SSID''
   \<and> Contains (TrimSpace example_slash) ''BSSID''
   \<and> isConnected True (answers example_slash_status) ''home_5G'' ''WLAN'' = Inr True
   \<and> blockParsedSSID (parsedBlock ''home_5G'' ''WLAN'' example_slash_status) = ''home_5G''
   \<and> slog_isConnected (answers example_slash_status) ''home_5G'' ''WLAN'' = Inr True
   \<and> blockParsedSSID (slog_parsedBlock ''home_5G'' ''WLAN'' example_slash_status) = ''home_5G''"
  by (simp add: example_slash_eval(1) isConnected_def slog_isConnected_def runNetshCommand_def
      answers_def Let_def parsedBlock_def slog_parsedBlock_def example_slash_run)

text \<open>
  C3, amended. A line of the status output that carries the access-point identifier as
  the parsers know it (its trimmed text starts with the label \<open>SSID\<close> and contains
  \<open>AP BSSID\<close>, or starts with \<open>BSSID\<close> or with \<open>AP BSSID\<close>) is not a source of the SSID:
  whatever the variables of the loop, the iteration on that line leaves the parsed SSID,
  and the other two variables, as they were; and the whole loop gives the same answer,
  with the same variables, as on the output without that line.
\<close>

theorem access_point_line_is_ignored:
  assumes "accessPointLine l"
  shows "stateOf (isConnected_line tgt iface st l) = st
         \<and> stateOf (slog_isConnected_line tgt iface st l) = st
         \<and> isConnected_loop tgt iface pstate0 (xs @ l # ys)
             = isConnected_loop tgt iface pstate0 (xs @ ys)
         \<and> slog_isConnected_loop tgt iface pstate0 (xs @ l # ys)
             = slog_isConnected_loop tgt iface pstate0 (xs @ ys)"
proof -
  from assms have p: "plainLine l" by (rule accessPointLine_plain)
  show ?thesis
  proof (intro conjI)
    show "stateOf (isConnected_line tgt iface st l) = st"
      using p by (rule line_plain_variables)
    show "stateOf (slog_isConnected_line tgt iface st l) = st"
      using p by (rule slog_line_plain_variables)
    show "isConnected_loop tgt iface pstate0 (xs @ l # ys)
            = isConnected_loop tgt iface pstate0 (xs @ ys)"
      using p undecided_pstate0(1) by (rule loop_drop_plain)
    show "slog_isConnected_loop tgt iface pstate0 (xs @ l # ys)
            = slog_isConnected_loop tgt iface pstate0 (xs @ ys)"
      using p undecided_pstate0(2) by (rule slog_loop_drop_plain)
  qed
qed

theorem access_point_line_is_ignored_witness:
  "accessPointLine example_marked
   \<and> accessPointLine example_bssid
   \<and> isConnected_loop ''home_5G'' ''WLAN'' pstate0
        (take 2 (Split example_status) @ [example_marked])
       = (False, \<lparr>inTargetInterfaceBlock = True, blockParsedSSID = [],
                  blockParsedState = keywordConnectedState\<rparr>)
   \<and> slog_isConnected_loop ''home_5G'' ''WLAN'' pstate0
        (take 2 (Split example_status) @ [example_marked])
       = (False, \<lparr>inTargetInterfaceBlock = True, blockParsedSSID = [],
                  blockParsedState = keywordConnectedState\<rparr>)
   \<and> isConnected_loop ''home_5G'' ''WLAN'' pstate0
        (take 2 (Split example_status) @ [example_bssid])
       = (False, \<lparr>inTargetInterfaceBlock = True, blockParsedSSID = [],
                  blockParsedState = keywordConnectedState\<rparr>)
   \<and> slog_isConnected_loop ''home_5G'' ''WLAN'' pstate0
        (take 2 (Split example_status) @ [example_bssid])
       = (False, \<lparr>inTargetInterfaceBlock = True, blockParsedSSID = [],
                  blockParsedState = keywordConnectedState\<rparr>)"
  using access_point_line_is_ignored [of example_marked "''home_5G''" "''WLAN''" pstate0
      "take 2 (Split example_status)" "[]"]
    access_point_line_is_ignored [of example_bssid "''home_5G''" "''WLAN''" pstate0
      "take 2 (Split example_status)" "[]"]
  by (simp add: accessPointLine_def example_marked_trim example_slash_eval(2)
      example_status_prefix_run)

text \<open>
  C10. The status parser starts a block only at a line whose trimmed text begins with the
  Chinese label (\<open>keywordInterfaceName\<close>). When the status command succeeds and no line
  of its output begins with that label, as in an output that labels its blocks with
  \<open>Name\<close>, \<open>isConnected\<close> returns \<open>(false, nil)\<close> for every target and every interface
  name, although \<open>getWlanInterface\<close> finds an interface in that output as soon as a line
  labelled \<open>Name\<close> gives a non-empty name.
\<close>

theorem Name_labelled_output_never_connected:
  "(runErr (w None showInterfaces) = None
      \<and> (\<forall>l \<in> set (Split (outBuf (w None showInterfaces))).
             \<not> HasPrefix (TrimSpace l) keywordInterfaceName) \<longrightarrow>
      isConnected True w tgt iface = Inr False
      \<and> ((\<exists>l \<in> set (Split (outBuf (w None showInterfaces))). namesInterface ''Name'' l) \<longrightarrow>
           (\<exists>n. getWlanInterface True w = Inr n)))
   \<and> (\<not> deadlineExceeded (w (Some commandTimeout) showInterfaces)
        \<and> runErr (w (Some commandTimeout) showInterfaces) = None
        \<and> (\<forall>l \<in> set (Split (outBuf (w (Some commandTimeout) showInterfaces))).
               \<not> HasPrefix (TrimSpace l) keywordInterfaceName) \<longrightarrow>
      slog_isConnected w tgt iface = Inr False
      \<and> ((\<exists>l \<in> set (Split (outBuf (w (Some commandTimeout) showInterfaces))).
              namesInterface ''Name'' l) \<longrightarrow>
           (\<exists>n. slog_getWlanInterface w = Inr n)))"
proof (intro conjI impI)
  let ?ls = "Split (outBuf (w None showInterfaces))"
  assume a: "runErr (w None showInterfaces) = None
      \<and> (\<forall>l \<in> set ?ls. \<not> HasPrefix (TrimSpace l) keywordInterfaceName)"
  then have "\<forall>l \<in> set ?ls. \<not> opensTargetBlock iface l"
    by (auto dest: not_labelled_not_opening)
  then have "fst (isConnected_loop tgt iface pstate0 ?ls) = False"
    by (intro isConnected_loop_no_block) (simp_all add: pstate0_def)
  with a show "isConnected True w tgt iface = Inr False"
    by (simp add: isConnected_def Let_def)
  assume "\<exists>l \<in> set ?ls. namesInterface ''Name'' l"
  then have "getWlanInterface_loop [] ?ls \<noteq> []"
    by (intro getWlanInterface_loop_finds) blast
  with a show "\<exists>n. getWlanInterface True w = Inr n"
    by (simp add: getWlanInterface_def Let_def)
next
  let ?r = "w (Some commandTimeout) showInterfaces"
  let ?ls = "Split (outBuf ?r)"
  assume a: "\<not> deadlineExceeded ?r \<and> runErr ?r = None
      \<and> (\<forall>l \<in> set ?ls. \<not> HasPrefix (TrimSpace l) keywordInterfaceName)"
  then have "\<forall>l \<in> set ?ls. \<not> opensTargetBlock iface l"
    by (auto dest: not_labelled_not_opening)
  then have "fst (slog_isConnected_loop tgt iface pstate0 ?ls) = False"
    by (intro slog_loop_no_block) (simp_all add: pstate0_def)
  with a show "slog_isConnected w tgt iface = Inr False"
    by (simp add: slog_isConnected_def runNetshCommand_ok)
  assume "\<exists>l \<in> set ?ls. namesInterface ''Name'' l"
  then have "\<exists>n. slog_getWlanInterface_loop ?ls = Some n"
    by (intro slog_getWlanInterface_loop_finds) blast
  with a show "\<exists>n. slog_getWlanInterface w = Inr n"
    by (auto simp: slog_getWlanInterface_def runNetshCommand_ok)
qed

theorem Name_labelled_output_never_connected_witness:
  "runErr (answers example_english None showInterfaces) = None
   \<and> \<not> deadlineExceeded (answers example_english (Some commandTimeout) showInterfaces)
   \<and> runErr (answers example_english (Some commandTimeout) showInterfaces) = None
   \<and> list_all (\<lambda>l. \<not> HasPrefix (TrimSpace l) keywordInterfaceName)
        (Split (outBuf (answers example_english None showInterfaces)))
   \<and> list_ex (namesInterface ''Name'')
        (Split (outBuf (answers example_english None showInterfaces)))
   \<and> getWlanInterface True (answers example_english) = Inr ''Wi-Fi''
   \<and> slog_getWlanInterface (answers example_english) = Inr ''Wi-Fi''
   \<and> isConnected True (answers example_english) ''home_5G'' ''Wi-Fi'' = Inr False
   \<and> slog_isConnected (answers example_english) ''home_5G'' ''Wi-Fi'' = Inr False"
  using Name_labelled_output_never_connected [of "answers example_english" "''home_5G''" "''Wi-Fi''"]
    example_english_facts
  by (simp add: answers_def list_all_iff list_ex_iff getWlanInterface_def
      slog_getWlanInterface_def runNetshCommand_def)

subsection \<open>The visibility scanner\<close>

text \<open>
  C5. When the scan command fails and its stderr contains one of the two phrasings of
  "no wireless networks are visible", \<open>isNetworkAvailable\<close> returns \<open>(false, nil)\<close>; when
  it fails with neither phrasing on stderr, \<open>isNetworkAvailable\<close> returns an error. For
  the slog program a failure is a non-nil error of \<open>runNetshCommand\<close>: a failed run or an
  exceeded deadline.
\<close>

theorem isNetworkAvailable_no_networks_visible:
  "(runErr (w None (showNetworks iface)) \<noteq> None \<longrightarrow>
      (Contains (errBuf (w None (showNetworks iface))) noNetworksVisible_zh
         \<or> Contains (errBuf (w None (showNetworks iface))) noNetworksVisible_en \<longrightarrow>
       isNetworkAvailable True w tgt iface = Inr False)
      \<and> (\<not> Contains (errBuf (w None (showNetworks iface))) noNetworksVisible_zh
          \<and> \<not> Contains (errBuf (w None (showNetworks iface))) noNetworksVisible_en \<longrightarrow>
          (\<exists>e. isNetworkAvailable True w tgt iface = Inl e)))
   \<and> (deadlineExceeded (w (Some commandTimeout) (slog_showNetworks iface))
        \<or> runErr (w (Some commandTimeout) (slog_showNetworks iface)) \<noteq> None \<longrightarrow>
      (Contains (errBuf (w (Some commandTimeout) (slog_showNetworks iface))) noNetworksVisible_zh
         \<or> Contains (errBuf (w (Some commandTimeout) (slog_showNetworks iface)))
              noNetworksVisible_en \<longrightarrow>
       slog_isNetworkAvailable w tgt iface = Inr False)
      \<and> (\<not> Contains (errBuf (w (Some commandTimeout) (slog_showNetworks iface)))
               noNetworksVisible_zh
          \<and> \<not> Contains (errBuf (w (Some commandTimeout) (slog_showNetworks iface)))
                 noNetworksVisible_en \<longrightarrow>
          (\<exists>e. slog_isNetworkAvailable w tgt iface = Inl e)))"
  by (auto simp: isNetworkAvailable_def slog_isNetworkAvailable_def runNetshCommand_def Let_def
      split: option.splits)

theorem isNetworkAvailable_no_networks_visible_witness:
  "runErr (fails_with (''The request failed: '' @ noNetworksVisible_en @ ''.'') None
       (showNetworks ''WLAN'')) \<noteq> None
   \<and> isNetworkAvailable True (fails_with (''The request failed: '' @ noNetworksVisible_en @ ''.''))
        ''home_5G'' ''WLAN'' = Inr False
   \<and> slog_isNetworkAvailable (fails_with (''The request failed: '' @ noNetworksVisible_en @ ''.''))
        ''home_5G'' ''WLAN'' = Inr False
   \<and> isNetworkAvailable True (fails_with (noNetworksVisible_zh @ [CHR 0x0D, CHR 0x0A]))
        ''home_5G'' ''WLAN'' = Inr False
   \<and> slog_isNetworkAvailable (fails_with (noNetworksVisible_zh @ [CHR 0x0D, CHR 0x0A]))
        ''home_5G'' ''WLAN'' = Inr False
   \<and> isNetworkAvailable True (fails_with ''Access is denied.'') ''home_5G'' ''WLAN''
       = Inl (RunFailed ''isNetworkAvailable'' \<lparr>Error = ''exit status 1'', ExitCode = Some 1\<rparr>
                (Stderr ''Access is denied.''))
   \<and> (\<exists>e. slog_isNetworkAvailable (fails_with ''Access is denied.'') ''home_5G'' ''WLAN''
           = Inl e)"
  using isNetworkAvailable_no_networks_visible
      [of "fails_with (''The request failed: '' @ noNetworksVisible_en @ ''.'')" "''WLAN''"
        "''home_5G''"]
    isNetworkAvailable_no_networks_visible
      [of "fails_with (noNetworksVisible_zh @ [CHR 0x0D, CHR 0x0A])" "''WLAN''" "''home_5G''"]
    isNetworkAvailable_no_networks_visible
      [of "fails_with ''Access is denied.''" "''WLAN''" "''home_5G''"]
    fails_with_phrases
  by (auto simp: fails_with_def isNetworkAvailable_def Let_def)

text \<open>
  C9. When the scan command succeeds, \<open>isNetworkAvailable\<close> returns true exactly when
  some line of the output, trimmed, begins with \<open>SSID\<close> followed by a space and has the
  target as the trimmed text after its first colon; a matching line decides the answer
  whatever the lines after it, and the answer is false only when no line of the whole
  output matches.
\<close>

theorem isNetworkAvailable_first_match:
  "(runErr (w None (showNetworks iface)) = None \<longrightarrow>
      isNetworkAvailable True w tgt iface
        = Inr (\<exists>l \<in> set (Split (outBuf (w None (showNetworks iface)))). listsSSID tgt l))
   \<and> (\<not> deadlineExceeded (w (Some commandTimeout) (slog_showNetworks iface))
        \<and> runErr (w (Some commandTimeout) (slog_showNetworks iface)) = None \<longrightarrow>
      slog_isNetworkAvailable w tgt iface
        = Inr (\<exists>l \<in> set (Split (outBuf (w (Some commandTimeout) (slog_showNetworks iface)))).
                 listsSSID tgt l))
   \<and> (listsSSID tgt l \<longrightarrow>
        isNetworkAvailable_loop tgt (xs @ l # ys) \<and> slog_isNetworkAvailable_loop tgt (xs @ l # ys))"
  by (auto simp: isNetworkAvailable_def slog_isNetworkAvailable_def runNetshCommand_ok Let_def
      isNetworkAvailable_loop_iff slog_isNetworkAvailable_loop_iff)

theorem isNetworkAvailable_first_match_witness:
  "runErr (answers example_scan None (showNetworks ''WLAN'')) = None
   \<and> \<not> deadlineExceeded (answers example_scan (Some commandTimeout) (slog_showNetworks ''WLAN''))
   \<and> runErr (answers example_scan (Some commandTimeout) (slog_showNetworks ''WLAN'')) = None
   \<and> isNetworkAvailable True (answers example_scan) ''cafe'' ''WLAN'' = Inr True
   \<and> slog_isNetworkAvailable (answers example_scan) ''cafe'' ''WLAN'' = Inr True
   \<and> isNetworkAvailable True (answers example_scan) ''office'' ''WLAN'' = Inr False
   \<and> slog_isNetworkAvailable (answers example_scan) ''office'' ''WLAN'' = Inr False
   \<and> listsSSID ''home_5G'' ''SSID 1 : home_5G''
   \<and> isNetworkAvailable_loop ''home_5G'' ([] @ ''SSID 1 : home_5G'' # [''not examined''])
   \<and> slog_isNetworkAvailable_loop ''home_5G'' ([] @ ''SSID 1 : home_5G'' # [''not examined''])"
  using isNetworkAvailable_first_match [of "answers example_scan" "''WLAN''" "''cafe''"
      "''SSID 1 : home_5G''" "[]" "[''not examined'']"]
    isNetworkAvailable_first_match [of "answers example_scan" "''WLAN''" "''office''"
      "''SSID 1 : home_5G''" "[]" "[''not examined'']"]
    isNetworkAvailable_first_match [of "answers example_scan" "''WLAN''" "''home_5G''"
      "''SSID 1 : home_5G''" "[]" "[''not examined'']"]
    example_scan_facts
  by (simp add: answers_def list_ex_iff)

subsection \<open>The command runner and the reconnector\<close>

text \<open>
  C7. \<open>runNetshCommand\<close> returns the captured stdout and stderr in every case, and its
  error tells three outcomes apart: no error when the run succeeded within the time
  limit, the timeout error exactly when the deadline was exceeded, and the failure error
  otherwise; the timeout is a different error from the failure. The default time limit
  \<open>commandTimeout\<close> is 10 seconds.
\<close>

theorem runNetshCommand_three_outcomes:
  "fst (runNetshCommand w timeout args) = outBuf (w (Some timeout) args)
   \<and> fst (snd (runNetshCommand w timeout args)) = errBuf (w (Some timeout) args)
   \<and> outcomeOf (snd (snd (runNetshCommand w timeout args)))
       = Some (if deadlineExceeded (w (Some timeout) args) then TimedOut
               else if runErr (w (Some timeout) args) = None then Succeeded
               else Failed)
   \<and> (snd (snd (runNetshCommand w timeout args)) = Some (CommandTimeout args timeout)
        \<longleftrightarrow> deadlineExceeded (w (Some timeout) args))
   \<and> commandTimeout = 10 * Second \<and> Second = 1000000000"
  by (auto simp: runNetshCommand_def Let_def commandTimeout_def Second_def split: option.splits)

text \<open>
  C8, as stated, fails for \<open>connectToWifi\<close> of \<open>main.go\<close>, which runs the connect command
  under no time limit: it returns nil where the same command under the extended time
  limit is cut off, and where \<open>connectToWifi\<close> of the slog program returns the timeout
  error.
\<close>

theorem connectToWifi_main_go_has_no_timeout:
  "connectToWifi True only_unbounded ''qaz_5G'' ''WLAN'' = None
   \<and> deadlineExceeded (only_unbounded (Some (commandTimeout * 2)) (connectArgs ''qaz_5G'' ''WLAN''))
   \<and> slog_connectToWifi only_unbounded ''qaz_5G'' ''WLAN''
       = Some (Wrapped ''connectToWifi''
                 (CommandTimeout (slog_connectArgs ''qaz_5G'' ''WLAN'') (commandTimeout * 2)))"
  by (simp add: connectToWifi_def slog_connectToWifi_def only_unbounded_def runNetshCommand_def
      Let_def)

text \<open>
  C8, amended. \<open>connectToWifi\<close> of the slog program runs the connect command under twice
  the default time limit and returns nil exactly when that run ends without error within
  the limit; \<open>connectToWifi\<close> of \<open>main.go\<close> runs it under no time limit and returns nil
  exactly when the run ends without error. The value that either returns is a function
  of what that one run left behind: no other command, and so no status query, is
  consulted.
\<close>

theorem connectToWifi_only_runs_connect:
  "(slog_connectToWifi w tgt iface = None
      \<longleftrightarrow> \<not> deadlineExceeded (w (Some (commandTimeout * 2)) (slog_connectArgs tgt iface))
          \<and> runErr (w (Some (commandTimeout * 2)) (slog_connectArgs tgt iface)) = None)
   \<and> commandTimeout * 2 = 2 * (10 * Second)
   \<and> (\<exists>f. \<forall>w'. slog_connectToWifi w' tgt iface
                  = f (w' (Some (commandTimeout * 2)) (slog_connectArgs tgt iface)))
   \<and> (connectToWifi True w ssid iface = None
        \<longleftrightarrow> runErr (w None (connectArgs ssid iface)) = None)
   \<and> (\<exists>f. \<forall>w'. connectToWifi True w' ssid iface = f (w' None (connectArgs ssid iface)))"
proof (intro conjI)
  show "slog_connectToWifi w tgt iface = None
      \<longleftrightarrow> \<not> deadlineExceeded (w (Some (commandTimeout * 2)) (slog_connectArgs tgt iface))
          \<and> runErr (w (Some (commandTimeout * 2)) (slog_connectArgs tgt iface)) = None"
    by (simp add: slog_connectToWifi_def runNetshCommand_def Let_def split: option.splits)
  show "commandTimeout * 2 = 2 * (10 * Second)"
    by (simp add: commandTimeout_def)
  define f where "f = (\<lambda>r :: exec_result. if deadlineExceeded r
                 then Some (Wrapped ''connectToWifi''
                        (CommandTimeout (slog_connectArgs tgt iface) (commandTimeout * 2)))
                 else (case runErr r of
                         Some err \<Rightarrow> Some (Wrapped ''connectToWifi''
                           (CommandFailed (slog_connectArgs tgt iface) err (TrimSpace (errBuf r))))
                       | None \<Rightarrow> None))"
  have "slog_connectToWifi w' tgt iface
          = f (w' (Some (commandTimeout * 2)) (slog_connectArgs tgt iface))" for w'
    by (simp add: f_def slog_connectToWifi_def runNetshCommand_def Let_def split: option.splits)
  then show "\<exists>f. \<forall>w'. slog_connectToWifi w' tgt iface
                  = f (w' (Some (commandTimeout * 2)) (slog_connectArgs tgt iface))"
    by blast
  show "connectToWifi True w ssid iface = None
        \<longleftrightarrow> runErr (w None (connectArgs ssid iface)) = None"
    by (simp add: connectToWifi_def Let_def split: option.splits)
  define g where "g = (\<lambda>r :: exec_result. case runErr r of
                  Some err \<Rightarrow> Some (RunFailed ''connectToWifi'' err (Stderr (errBuf r)))
                | None \<Rightarrow> None)"
  have "connectToWifi True w' ssid iface = g (w' None (connectArgs ssid iface))" for w'
    by (simp add: g_def connectToWifi_def Let_def)
  then show "\<exists>f. \<forall>w'. connectToWifi True w' ssid iface = f (w' None (connectArgs ssid iface))"
    by blast
qed

subsection \<open>The poll loop\<close>

text \<open>
  C2, as stated, fails for the earlier program, which has no visibility scanner: on a
  tick whose status check returns not-connected it calls the reconnector with no
  visibility check made.
\<close>

theorem part000_reconnects_without_visibility_check:
  "part000_tick (answers example_bare_block) ''WLAN'' = [StatusCheck (Inr False), Reconnect None]
   \<and> reconnects (part000_tick (answers example_bare_block) ''WLAN'')
   \<and> \<not> checksVisibility (part000_tick (answers example_bare_block) ''WLAN'')"
  by (simp add: part000_tick_def isConnected_def connectToWifi_def answers_def Let_def
      example_bare_block_qaz_run reconnects_def checksVisibility_def)

text \<open>
  C2, amended. In \<open>main.go\<close> and in the slog program a pass calls the reconnector exactly
  when its status check returned not-connected without error and its visibility check
  returned visible without error. In the earlier program a pass calls the reconnector
  exactly when its status check returned not-connected without error, and never checks
  visibility. In all three no reconnect is attempted on a pass whose status check
  reported connected, and every tick is followed by one such pass.
\<close>

theorem reconnect_iff_disconnected_and_visible:
  "(reconnects (main_tick w iface)
      \<longleftrightarrow> isConnected True w targetSSID iface = Inr False
          \<and> isNetworkAvailable True w targetSSID iface = Inr True)
   \<and> (reconnects (performCheckAndConnect w tgt iface)
        \<longleftrightarrow> slog_isConnected w tgt iface = Inr False
            \<and> slog_isNetworkAvailable w tgt iface = Inr True)
   \<and> (reconnects (part000_tick w iface) \<longleftrightarrow> isConnected True w targetSSID iface = Inr False)
   \<and> \<not> checksVisibility (part000_tick w iface)
   \<and> main_loop iface ticks = concat (map (\<lambda>w. TickFired # main_tick w iface) ticks)
   \<and> slog_loop tgt iface ticks
       = concat (map (\<lambda>w. TickFired # performCheckAndConnect w tgt iface) ticks)
   \<and> part000_loop iface ticks = concat (map (\<lambda>w. TickFired # part000_tick w iface) ticks)"
proof (intro conjI)
  show "reconnects (main_tick w iface)
      \<longleftrightarrow> isConnected True w targetSSID iface = Inr False
          \<and> isNetworkAvailable True w targetSSID iface = Inr True"
    by (cases "isConnected True w targetSSID iface";
        cases "isNetworkAvailable True w targetSSID iface")
       (simp_all add: main_tick_def reconnects_def Let_def)
  show "reconnects (performCheckAndConnect w tgt iface)
        \<longleftrightarrow> slog_isConnected w tgt iface = Inr False
            \<and> slog_isNetworkAvailable w tgt iface = Inr True"
    by (cases "slog_isConnected w tgt iface"; cases "slog_isNetworkAvailable w tgt iface")
       (simp_all add: performCheckAndConnect_def reconnects_def Let_def)
  show "reconnects (part000_tick w iface) \<longleftrightarrow> isConnected True w targetSSID iface = Inr False"
    by (cases "isConnected True w targetSSID iface")
       (simp_all add: part000_tick_def reconnects_def Let_def)
  show "\<not> checksVisibility (part000_tick w iface)"
    by (cases "isConnected True w targetSSID iface")
       (simp_all add: part000_tick_def checksVisibility_def Let_def)
qed (rule main_loop_concat slog_loop_concat part000_loop_concat)+

text \<open>
  C6, as stated, fails for \<open>main.go\<close> and for the earlier program: they enter the loop at
  once, so nothing is checked until the first tick has been taken, and the first event
  of a run is that tick.
\<close>

theorem main_go_no_pass_before_first_tick:
  "main (answers []) [] = Waiting []
   \<and> part000_main (answers []) [] = Waiting []
   \<and> main (answers []) [answers []]
       = Waiting [TickFired, StatusCheck (Inr False), VisibilityCheck (Inr False)]"
  by (simp add: main_def part000_main_def wifiInterfaceName_def NewTicker_def checkInterval_def
      part000_checkInterval_def Second_def main_tick_def isConnected_def
      isNetworkAvailable_def answers_def isConnected_line_def pstate0_def go_strings labels
      SplitN_def)

text \<open>
  C6, amended. The slog program, once its \<open>-ssid\<close> is accepted and its interface is
  known, creates its ticker from the value of \<open>-interval\<close>. When that value is positive
  it makes one pass (a status check first, no tick in it) before it takes any tick from
  the ticker, and then one pass after each tick it takes, for as many ticks as it takes;
  it never leaves the loop. The ticker runs from before the first pass, so a tick sent
  during that pass is taken after it. When the value of \<open>-interval\<close> is zero or negative
  the creation of the ticker panics and the program ends with no pass made. \<open>main.go\<close>
  and the earlier program, whose intervals are positive constants, make no pass before
  the first tick: their run is one pass after each tick.
\<close>

theorem immediate_pass_then_ticks:
  "(targetSSIDFlag \<noteq> []
      \<and> (if wifiInterfaceFlag = [] then slog_getWlanInterface w0 else Inr wifiInterfaceFlag)
          = Inr iface \<longrightarrow>
      slog_main targetSSIDFlag wifiInterfaceFlag checkIntervalFlag w0 w1 ticks
        = (if 0 < checkIntervalFlag
           then Waiting (performCheckAndConnect w1 targetSSIDFlag iface
                   @ concat (map (\<lambda>w. TickFired # performCheckAndConnect w targetSSIDFlag iface)
                               ticks))
           else Panicked []))
   \<and> (\<exists>r rest. performCheckAndConnect w tgt iface = StatusCheck r # rest
                  \<and> TickFired \<notin> set rest)
   \<and> main w0 ticks = Waiting (concat (map (\<lambda>w. TickFired # main_tick w wifiInterfaceName) ticks))
   \<and> part000_main w0 ticks
       = Waiting (concat (map (\<lambda>w. TickFired # part000_tick w wifiInterfaceName) ticks))"
proof (intro conjI impI)
  assume "targetSSIDFlag \<noteq> []
      \<and> (if wifiInterfaceFlag = [] then slog_getWlanInterface w0 else Inr wifiInterfaceFlag)
          = Inr iface"
  then show "slog_main targetSSIDFlag wifiInterfaceFlag checkIntervalFlag w0 w1 ticks
        = (if 0 < checkIntervalFlag
           then Waiting (performCheckAndConnect w1 targetSSIDFlag iface
                   @ concat (map (\<lambda>w. TickFired # performCheckAndConnect w targetSSIDFlag iface)
                               ticks))
           else Panicked [])"
    by (simp add: slog_main_def NewTicker_def slog_loop_concat)
next
  show "\<exists>r rest. performCheckAndConnect w tgt iface = StatusCheck r # rest
                  \<and> TickFired \<notin> set rest"
    by (cases "slog_isConnected w tgt iface"; cases "slog_isNetworkAvailable w tgt iface")
       (simp_all add: performCheckAndConnect_def Let_def)
  show "main w0 ticks = Waiting (concat (map (\<lambda>w. TickFired # main_tick w wifiInterfaceName) ticks))"
    by (simp add: main_def wifiInterfaceName_def NewTicker_def checkInterval_def Second_def
        main_loop_concat)
  show "part000_main w0 ticks
       = Waiting (concat (map (\<lambda>w. TickFired # part000_tick w wifiInterfaceName) ticks))"
    by (simp add: part000_main_def wifiInterfaceName_def NewTicker_def part000_checkInterval_def
        Second_def part000_loop_concat)
qed

theorem immediate_pass_then_ticks_witness:
  "''home_5G'' \<noteq> []
   \<and> (if ''WLAN'' = [] then slog_getWlanInterface (answers example_status) else Inr ''WLAN'')
       = Inr ''WLAN''
   \<and> slog_main ''home_5G'' ''WLAN'' (15 * Second) (answers example_status)
        (answers example_status) [answers example_status, answers example_bare_block]
       = Waiting [StatusCheck (Inr True), TickFired, StatusCheck (Inr True), TickFired,
                  StatusCheck (Inr False), VisibilityCheck (Inr False)]
   \<and> slog_main ''home_5G'' ''WLAN'' 0 (answers example_status)
        (answers example_status) [answers example_status] = Panicked []
   \<and> slog_main ''home_5G'' ''WLAN'' (- Second) (answers example_status)
        (answers example_status) [answers example_status] = Panicked []"
  using immediate_pass_then_ticks [where targetSSIDFlag = "''home_5G''"
      and wifiInterfaceFlag = "''WLAN''" and ?w0.0 = "answers example_status"
      and iface = "''WLAN''" and checkIntervalFlag = "15 * Second"
      and ?w1.0 = "answers example_status"
      and ticks = "[answers example_status, answers example_bare_block]"]
    immediate_pass_then_ticks [where targetSSIDFlag = "''home_5G''"
      and wifiInterfaceFlag = "''WLAN''" and ?w0.0 = "answers example_status"
      and iface = "''WLAN''" and checkIntervalFlag = 0
      and ?w1.0 = "answers example_status" and ticks = "[answers example_status]"]
    immediate_pass_then_ticks [where targetSSIDFlag = "''home_5G''"
      and wifiInterfaceFlag = "''WLAN''" and ?w0.0 = "answers example_status"
      and iface = "''WLAN''" and checkIntervalFlag = "- Second"
      and ?w1.0 = "answers example_status" and ticks = "[answers example_status]"]
  by (simp add: performCheckAndConnect_def slog_isConnected_def slog_isNetworkAvailable_def
      runNetshCommand_def answers_def Let_def example_runs example_eval Second_def)

end
